theory Spec2Isabelle
  imports Complex_Main "HOL-Library.Word" "HOL-Library.Log_Nat"
begin

unbundle bit_operations_syntax

section \<open>Strings and bytes\<close>

text \<open>
  A Go string is a sequence of bytes; it is modelled as a \<open>char list\<close>, and a byte is
  read as a number by \<open>byte\<close>.
\<close>

type_synonym bytes = "char list"

definition byte :: "char \<Rightarrow> nat" where
  "byte c = of_char c"

section \<open>Package strconv\<close>

text \<open>
  The handlers parse their numeric parameters with \<open>strconv.Atoi\<close> and
  \<open>strconv.ParseUint\<close> of the Go standard library. The functions below follow the
  library's algorithms on a 64-bit platform (\<open>IntSize = 64\<close>): the digit loop of
  \<open>ParseUint\<close> with its cutoff and overflow tests, the sign handling and range test of
  \<open>ParseInt\<close>, and the fast path of \<open>Atoi\<close> for short strings. A \<open>uint64\<close> is a
  \<open>nat\<close> with the wrap-around of the addition written out. Base prefixes and
  underscores (base 0) are not used by the callers and are left out.
\<close>

datatype num_error = ErrSyntax | ErrRange

definition lower :: "nat \<Rightarrow> nat" where
  "lower c = c OR 32"

definition digit_val :: "char \<Rightarrow> nat option" where
  "digit_val c =
     (if byte CHR ''0'' \<le> byte c \<and> byte c \<le> byte CHR ''9'' then Some (byte c - byte CHR ''0'')
      else if byte CHR ''a'' \<le> lower (byte c) \<and> lower (byte c) \<le> byte CHR ''z''
        then Some (lower (byte c) - byte CHR ''a'' + 10)
      else None)"

definition maxUint64 :: nat where
  "maxUint64 = 2 ^ 64 - 1"

fun parse_loop :: "nat \<Rightarrow> nat \<Rightarrow> nat \<Rightarrow> char list \<Rightarrow> num_error + nat" where
  "parse_loop base maxVal n [] = Inr n"
| "parse_loop base maxVal n (c # cs) =
     (case digit_val c of
        None \<Rightarrow> Inl ErrSyntax
      | Some d \<Rightarrow>
          if d \<ge> base then Inl ErrSyntax
          else if n \<ge> maxUint64 div base + 1 then Inl ErrRange
          else
            let n0 = n * base; n1 = (n0 + d) mod 2 ^ 64
            in if n1 < n0 \<or> n1 > maxVal then Inl ErrRange
               else parse_loop base maxVal n1 cs)"

definition ParseUint :: "string \<Rightarrow> nat \<Rightarrow> nat \<Rightarrow> num_error + nat" where
  "ParseUint s base bitSize =
     (if s = [] then Inl ErrSyntax
      else parse_loop base (2 ^ (if bitSize = 0 then 64 else bitSize) - 1) 0 s)"

definition ParseInt :: "string \<Rightarrow> nat \<Rightarrow> nat \<Rightarrow> num_error + int" where
  "ParseInt s base bitSize =
     (if s = [] then Inl ErrSyntax
      else
        let neg = (hd s = CHR ''-'');
            s1 = (if hd s = CHR ''+'' \<or> hd s = CHR ''-'' then tl s else s);
            cutoff = (2::nat) ^ ((if bitSize = 0 then 64 else bitSize) - 1)
        in case ParseUint s1 base bitSize of
             Inl ErrSyntax \<Rightarrow> Inl ErrSyntax
           | Inl ErrRange \<Rightarrow> Inl ErrRange
           | Inr un \<Rightarrow>
               if \<not> neg \<and> un \<ge> cutoff then Inl ErrRange
               else if neg \<and> un > cutoff then Inl ErrRange
               else Inr (if neg then - int un else int un))"

fun atoi_loop :: "int \<Rightarrow> char list \<Rightarrow> num_error + int" where
  "atoi_loop n [] = Inr n"
| "atoi_loop n (c # cs) =
     (let ch = (byte c + 256 - byte CHR ''0'') mod 256
      in if ch > 9 then Inl ErrSyntax else atoi_loop (n * 10 + int ch) cs)"

definition Atoi :: "string \<Rightarrow> num_error + int" where
  "Atoi s =
     (if 0 < length s \<and> length s < 19 then
        let s1 = (if hd s = CHR ''-'' \<or> hd s = CHR ''+'' then tl s else s)
        in if length s1 < 1 then Inl ErrSyntax
           else case atoi_loop 0 s1 of
                  Inl e \<Rightarrow> Inl e
                | Inr n \<Rightarrow> Inr (if hd s = CHR ''-'' then - n else n)
      else ParseInt s 10 0)"

section \<open>Package regexp: the filename pattern\<close>

text \<open>
  \<open>validFilename\<close> is the compiled pattern \<^verbatim>\<open>^[a-zA-Z0-9-]+$\<close>. A pattern is a
  sequence of items: the two anchors (without the multi-line flag they match only at
  the beginning and at the end of the text) and one-or-more repetitions of a character
  class given by its ranges. \<open>MatchString\<close> searches for a match starting at any
  position of the text.
\<close>

datatype re_item = BeginText | EndText | PlusClass "(char \<times> char) list"

definition in_class :: "(char \<times> char) list \<Rightarrow> char \<Rightarrow> bool" where
  "in_class cls c = list_ex (\<lambda>(lo, hi). byte lo \<le> byte c \<and> byte c \<le> byte hi) cls"

fun match_here :: "re_item list \<Rightarrow> nat \<Rightarrow> string \<Rightarrow> bool" where
  "match_here [] i s = True"
| "match_here (BeginText # r) i s = (i = 0 \<and> match_here r i s)"
| "match_here (EndText # r) i s = (s = [] \<and> match_here r i s)"
| "match_here (PlusClass cls # r) i s =
     list_ex (\<lambda>k. match_here r (i + k) (drop k s))
       [1 ..< Suc (length (takeWhile (in_class cls) s))]"

definition MatchString :: "re_item list \<Rightarrow> string \<Rightarrow> bool" where
  "MatchString re s = list_ex (\<lambda>i. match_here re i (drop i s)) [0 ..< Suc (length s)]"

definition validFilename :: "re_item list" where
  "validFilename =
     [BeginText,
      PlusClass [(CHR ''a'', CHR ''z''), (CHR ''A'', CHR ''Z''), (CHR ''0'', CHR ''9''),
                 (CHR ''-'', CHR ''-'')],
      EndText]"

text \<open>The test both handlers apply to the \<open>filename\<close> query parameter.\<close>

definition filename_ok :: "string \<Rightarrow> bool" where
  "filename_ok filename = (\<not> (filename = [] \<or> \<not> MatchString validFilename filename))"

section \<open>float64 arithmetic\<close>

text \<open>
  The scaling step computes the new height in \<open>float64\<close>. A finite \<open>float64\<close> is
  modelled by the rational number it denotes; every operation computes the exact result
  and rounds it to the nearest number with a 53-bit significand, ties to even
  (\<open>rnd64\<close>). The magnitudes that occur (quotients and products of image dimensions and
  of a 32-bit width) lie far inside the range of normal numbers, so overflow and
  subnormal numbers are not modelled. Division by zero gives \<open>PosInf\<close> or \<open>NaN\<close> as in
  IEEE 754; all operands of the program are non-negative, so there is no negative
  infinity. The conversion of \<open>NaN\<close>, of an infinity or of a value out of range to an
  unsigned integer is implementation-specific in Go: its result is the parameter \<open>u\<close>
  of \<open>to_uint\<close>.
\<close>

datatype float64 = Finite rat | PosInf | NaN

definition round_even :: "rat \<Rightarrow> int" where
  "round_even x =
     (let f = \<lfloor>x\<rfloor>; r = x - of_int f
      in if r < 1 / 2 then f else if r > 1 / 2 then f + 1 else if even f then f else f + 1)"

definition ilog2 :: "rat \<Rightarrow> int" where
  "ilog2 x =
     (let (n, d) = quotient_of x; e = bitlen n - bitlen d
      in if 2 powi e \<le> x then e else e - 1)"

definition rnd64 :: "rat \<Rightarrow> rat" where
  "rnd64 x =
     (if x = 0 then 0
      else let e = ilog2 \<bar>x\<bar>
           in sgn x * of_int (round_even (\<bar>x\<bar> * 2 powi (52 - e))) * 2 powi (e - 52))"

definition f64_of_int :: "int \<Rightarrow> float64" where
  "f64_of_int i = Finite (rnd64 (of_int i))"

definition f64_of_nat :: "nat \<Rightarrow> float64" where
  "f64_of_nat n = Finite (rnd64 (of_nat n))"

fun f64_div :: "float64 \<Rightarrow> float64 \<Rightarrow> float64" where
  "f64_div (Finite x) (Finite y) =
     (if y = 0 then (if x = 0 then NaN else PosInf) else Finite (rnd64 (x / y)))"
| "f64_div (Finite x) PosInf = Finite 0"
| "f64_div PosInf (Finite y) = PosInf"
| "f64_div PosInf PosInf = NaN"
| "f64_div NaN b = NaN"
| "f64_div a NaN = NaN"

fun f64_mul :: "float64 \<Rightarrow> float64 \<Rightarrow> float64" where
  "f64_mul (Finite x) (Finite y) = Finite (rnd64 (x * y))"
| "f64_mul (Finite x) PosInf = (if x = 0 then NaN else PosInf)"
| "f64_mul PosInf (Finite y) = (if y = 0 then NaN else PosInf)"
| "f64_mul PosInf PosInf = PosInf"
| "f64_mul NaN b = NaN"
| "f64_mul a NaN = NaN"

fun f64_add :: "float64 \<Rightarrow> float64 \<Rightarrow> float64" where
  "f64_add (Finite x) (Finite y) = Finite (rnd64 (x + y))"
| "f64_add NaN b = NaN"
| "f64_add a NaN = NaN"
| "f64_add PosInf b = PosInf"
| "f64_add a PosInf = PosInf"

fun to_uint :: "nat \<Rightarrow> float64 \<Rightarrow> nat" where
  "to_uint u (Finite x) = (if - 1 < x \<and> x < 2 ^ 64 then nat \<lfloor>x\<rfloor> else u)"
| "to_uint u PosInf = u"
| "to_uint u NaN = u"

text \<open>The conversion \<open>int(width)\<close> of a \<open>uint\<close> reinterprets the 64 bits.\<close>

definition int_of_uint :: "nat \<Rightarrow> int" where
  "int_of_uint n = (if n < 2 ^ 63 then int n else int n - 2 ^ 64)"

section \<open>Package image: rectangles and rasters\<close>

text \<open>
  \<open>image.Rectangle\<close> with its constructor \<open>image.Rect\<close> (which puts the corners in
  order), \<open>Empty\<close>, \<open>Intersect\<close> (the zero rectangle when the intersection is empty),
  \<open>Add\<close>, \<open>Dx\<close> and \<open>Dy\<close>. Coordinates are Go \<open>int\<close>s; they are added and
  subtracted only after a rectangle has been intersected with the bounds of a decoded
  image, so they are modelled as unbounded integers.
\<close>

record rectangle =
  MinX :: int
  MinY :: int
  MaxX :: int
  MaxY :: int

definition Rect :: "int \<Rightarrow> int \<Rightarrow> int \<Rightarrow> int \<Rightarrow> rectangle" where
  "Rect x0 y0 x1 y1 =
     \<lparr>MinX = (if x0 > x1 then x1 else x0), MinY = (if y0 > y1 then y1 else y0),
      MaxX = (if x0 > x1 then x0 else x1), MaxY = (if y0 > y1 then y0 else y1)\<rparr>"

definition ZR :: rectangle where
  "ZR = \<lparr>MinX = 0, MinY = 0, MaxX = 0, MaxY = 0\<rparr>"

definition Empty :: "rectangle \<Rightarrow> bool" where
  "Empty r = (MinX r \<ge> MaxX r \<or> MinY r \<ge> MaxY r)"

definition Dx :: "rectangle \<Rightarrow> int" where
  "Dx r = MaxX r - MinX r"

definition Dy :: "rectangle \<Rightarrow> int" where
  "Dy r = MaxY r - MinY r"

definition Intersect :: "rectangle \<Rightarrow> rectangle \<Rightarrow> rectangle" where
  "Intersect r s =
     (let r1 = r\<lparr>MinX := (if MinX r < MinX s then MinX s else MinX r)\<rparr>;
          r2 = r1\<lparr>MinY := (if MinY r1 < MinY s then MinY s else MinY r1)\<rparr>;
          r3 = r2\<lparr>MaxX := (if MaxX r2 > MaxX s then MaxX s else MaxX r2)\<rparr>;
          r4 = r3\<lparr>MaxY := (if MaxY r3 > MaxY s then MaxY s else MaxY r3)\<rparr>
      in if Empty r4 then ZR else r4)"

definition Add :: "rectangle \<Rightarrow> int \<Rightarrow> int \<Rightarrow> rectangle" where
  "Add r px py =
     \<lparr>MinX = MinX r + px, MinY = MinY r + py, MaxX = MaxX r + px, MaxY = MaxY r + py\<rparr>"

definition In :: "int \<Rightarrow> int \<Rightarrow> rectangle \<Rightarrow> bool" where
  "In x y r = (MinX r \<le> x \<and> x < MaxX r \<and> MinY r \<le> y \<and> y < MaxY r)"

text \<open>
  A raster is its bounds and its pixels. The pixel formats of the decoder (\<open>YCbCr\<close>,
  \<open>Gray\<close>, \<open>CMYK\<close>) are not distinguished: a pixel is the \<open>color.RGBA\<close> value that
  \<open>draw.Draw\<close> stores for it. Every raster type the JPEG decoder returns has the
  \<open>SubImage\<close> method, so the type assertion of the handler succeeds. \<open>SubImage\<close>
  shares the pixels of its receiver and returns a raster without pixels when the
  rectangle misses the image.
\<close>

datatype rgba = RGBA "8 word" "8 word" "8 word" "8 word"

record image =
  bounds :: rectangle
  pix :: "int \<Rightarrow> int \<Rightarrow> rgba"

definition no_pixels :: "int \<Rightarrow> int \<Rightarrow> rgba" where
  "no_pixels = (\<lambda>x y. RGBA 0 0 0 0)"

definition SubImage :: "image \<Rightarrow> rectangle \<Rightarrow> image" where
  "SubImage p r =
     (let r1 = Intersect r (bounds p)
      in if Empty r1 then \<lparr>bounds = ZR, pix = no_pixels\<rparr>
         else \<lparr>bounds = r1, pix = pix p\<rparr>)"

definition NewRGBA :: "rectangle \<Rightarrow> image" where
  "NewRGBA r = \<lparr>bounds = r, pix = no_pixels\<rparr>"

text \<open>
  \<open>draw.Draw dst r src sp draw.Src\<close>: the rectangle \<open>r\<close> is clipped to the bounds of
  \<open>dst\<close> and to the bounds of \<open>src\<close> moved by \<open>r.Min - sp\<close>; inside the clipped
  rectangle the pixel of \<open>dst\<close> at \<open>(x, y)\<close> becomes the pixel of \<open>src\<close> at
  \<open>sp + ((x, y) - r.Min)\<close>.
\<close>

definition Draw :: "image \<Rightarrow> rectangle \<Rightarrow> image \<Rightarrow> int \<Rightarrow> int \<Rightarrow> image" where
  "Draw dst r src spx spy =
     (let ox = MinX r; oy = MinY r;
          r1 = Intersect r (bounds dst);
          r2 = Intersect r1 (Add (bounds src) (ox - spx) (oy - spy))
      in if Empty r2 then dst
         else dst\<lparr>pix := (\<lambda>x y. if In x y r2 then pix src (spx + (x - ox)) (spy + (y - oy))
                                else pix dst x y)\<rparr>)"

section \<open>The environment of the handlers\<close>

text \<open>
  What the handlers obtain from libraries and from the operating system, and what no
  claim depends on, is a parameter: the JPEG decoder, the pixel values the Lanczos
  filter of \<open>resize.Resize\<close> computes, the pixels the glyphs of
  \<open>basicfont.Face7x13\<close> cover for a text and a start point, the layout of a time
  stamp, the clock, the implementation-specific conversion result \<open>conv_undef\<close>, and
  the failures of \<open>Stat\<close>, \<open>os.Create\<close> and \<open>Write\<close> (for a failing write, the
  number of bytes that reached the file). Memory is unbounded: the model does not
  represent an allocation that fails.
\<close>

record env =
  jpeg_decode :: "bytes \<Rightarrow> image option"
  resample :: "nat \<Rightarrow> nat \<Rightarrow> image \<Rightarrow> int \<Rightarrow> int \<Rightarrow> rgba"
  glyphs :: "string \<Rightarrow> int \<Rightarrow> int \<Rightarrow> int \<Rightarrow> int \<Rightarrow> bool"
  format_time :: "nat \<Rightarrow> string"
  now :: nat
  conv_undef :: nat
  stat_fails :: "string \<Rightarrow> bool"
  create_fails :: "string \<Rightarrow> bool"
  write_fails :: "string \<Rightarrow> bytes \<Rightarrow> nat option"

text \<open>The directory of stored images: a path leads to a file's bytes and its modification time.\<close>

record stored =
  content :: bytes
  mtime :: nat

type_synonym store = "string \<rightharpoonup> stored"

text \<open>
  A request: method, query parameters, headers, peer address, and the file parts of
  the multipart form. \<open>Get\<close> on the query and on the headers returns the first value
  of a key and the empty string when the key is absent. A form file is its bytes, or
  \<open>Unreadable\<close> when reading it fails.
\<close>

datatype upload = Upload bytes | Unreadable

record request =
  Method :: string
  Query :: "(string \<times> string) list"
  Header :: "(string \<times> string) list"
  RemoteAddr :: string
  FormFile :: "(string \<times> upload) list"

definition Get :: "(string \<times> string) list \<Rightarrow> string \<Rightarrow> string" where
  "Get kvs k = (case map_of kvs k of None \<Rightarrow> [] | Some v \<Rightarrow> v)"

datatype response =
    HTTPError nat string
  | ImageJPEG image
  | StatusOK

text \<open>
  \<open>HTTPError status message\<close> is \<open>http.Error\<close>; \<open>ImageJPEG m\<close> is the response with
  status 200, content type \<open>image/jpeg\<close> and the JPEG encoding of the raster \<open>m\<close> as
  body; \<open>StatusOK\<close> is status 200 with an empty body.
\<close>

definition file_path :: "string \<Rightarrow> string \<Rightarrow> string" where
  "file_path saveDir filename = saveDir @ ''/'' @ filename @ ''.jpg''"

section \<open>Package resize\<close>

text \<open>
  \<open>resize.Resize\<close> of \<open>github.com/nfnt/resize\<close>: a width or height of 0 is computed
  from the other one so that the aspect ratio is kept; the input is returned as it is
  when it already has the requested size or has no pixels; otherwise the result is a
  new raster of the requested size with its origin at \<open>(0, 0)\<close>.
\<close>

definition calcFactors :: "nat \<Rightarrow> nat \<Rightarrow> float64 \<Rightarrow> float64 \<Rightarrow> float64 \<times> float64" where
  "calcFactors width height oldWidth oldHeight =
     (if width = 0 then
        (if height = 0 then (Finite 1, Finite 1)
         else (let scaleY = f64_div oldHeight (f64_of_nat height) in (scaleY, scaleY)))
      else
        (let scaleX = f64_div oldWidth (f64_of_nat width)
         in if height = 0 then (scaleX, scaleX)
            else (scaleX, f64_div oldHeight (f64_of_nat height))))"

definition Resize :: "env \<Rightarrow> nat \<Rightarrow> nat \<Rightarrow> image \<Rightarrow> image" where
  "Resize env width height img =
     (let b = bounds img;
          (scaleX, scaleY) = calcFactors width height (f64_of_int (Dx b)) (f64_of_int (Dy b));
          width1 = (if width = 0
                    then to_uint (conv_undef env)
                           (f64_add (Finite (rnd64 (7 / 10))) (f64_div (f64_of_int (Dx b)) scaleX))
                    else width);
          height1 = (if height = 0
                     then to_uint (conv_undef env)
                            (f64_add (Finite (rnd64 (7 / 10))) (f64_div (f64_of_int (Dy b)) scaleY))
                     else height)
      in if int_of_uint width1 = Dx b \<and> int_of_uint height1 = Dy b then img
         else if Dx b \<le> 0 \<or> Dy b \<le> 0 then img
         else \<lparr>bounds = Rect 0 0 (int_of_uint width1) (int_of_uint height1),
               pix = resample env width1 height1 img\<rparr>)"

section \<open>getter.go\<close>

subsection \<open>drawText\<close>

text \<open>
  \<open>drawText\<close> draws the text with a \<open>font.Drawer\<close> whose source is the uniform colour
  \<open>col\<close>: every pixel of the raster that a glyph covers takes that colour (the glyph
  masks of the face are 1-bit masks and the handler's colours are opaque), all other
  pixels stay as they are, and nothing is drawn outside the bounds.
\<close>

definition drawText :: "env \<Rightarrow> image \<Rightarrow> string \<Rightarrow> int \<Rightarrow> int \<Rightarrow> rgba \<Rightarrow> image" where
  "drawText env img text x y col =
     img\<lparr>pix := (\<lambda>px py. if In px py (bounds img) \<and> glyphs env text x y px py then col
                         else pix img px py)\<rparr>"

subsection \<open>The client address\<close>

text \<open>\<open>before_sep sep s\<close> is \<open>strings.Split(s, sep)[0]\<close> for a non-empty separator.\<close>

fun before_sep :: "string \<Rightarrow> string \<Rightarrow> string" where
  "before_sep sep [] = []"
| "before_sep sep (c # cs) =
     (if take (length sep) (c # cs) = sep then [] else c # before_sep sep cs)"

definition client_ip :: "request \<Rightarrow> string" where
  "client_ip r =
     (let ip = Get (Header r) ''X-Forwarded-For''
      in if ip = [] then RemoteAddr r else before_sep '', '' ip)"

subsection \<open>scaledHandler\<close>

text \<open>Lines 64 to 93: the four box parameters, each with its default.\<close>

definition int_param :: "request \<Rightarrow> string \<Rightarrow> int \<Rightarrow> response + int" where
  "int_param r name dflt =
     (let str = Get (Query r) name
      in if str \<noteq> [] then
           (case Atoi str of
              Inl err \<Rightarrow> Inl (HTTPError 400 (''Invalid '' @ name @ '' parameter''))
            | Inr v \<Rightarrow> Inr v)
         else Inr dflt)"

definition box_params :: "request \<Rightarrow> image \<Rightarrow> response + (int \<times> int \<times> int \<times> int)" where
  "box_params r img =
     (case int_param r ''x1'' 0 of Inl e \<Rightarrow> Inl e | Inr x1 \<Rightarrow>
       (case int_param r ''y1'' 0 of Inl e \<Rightarrow> Inl e | Inr y1 \<Rightarrow>
         (case int_param r ''x2'' (MaxX (bounds img)) of Inl e \<Rightarrow> Inl e | Inr x2 \<Rightarrow>
           (case int_param r ''y2'' (MaxY (bounds img)) of Inl e \<Rightarrow> Inl e | Inr y2 \<Rightarrow>
              Inr (x1, y1, x2, y2)))))"

text \<open>Lines 100 to 111: the optional scaling of the cropped image.\<close>

definition newHeight :: "env \<Rightarrow> nat \<Rightarrow> image \<Rightarrow> nat" where
  "newHeight env width subImg =
     (let scaleFactor = f64_div (f64_of_nat width) (f64_of_int (Dx (bounds subImg)))
      in to_uint (conv_undef env) (f64_mul (f64_of_int (Dy (bounds subImg))) scaleFactor))"

definition scale_step :: "env \<Rightarrow> request \<Rightarrow> image \<Rightarrow> response + image" where
  "scale_step env r subImg =
     (let wStr = Get (Query r) ''w''
      in if wStr \<noteq> [] then
           (case ParseUint wStr 10 32 of
              Inl err \<Rightarrow> Inl (HTTPError 400 ''Invalid w parameter'')
            | Inr width \<Rightarrow> Inr (Resize env width (newHeight env width subImg) subImg))
         else Inr subImg)"

text \<open>Lines 113 to 115: the copy into a new RGBA raster.\<close>

definition to_rgba :: "image \<Rightarrow> image" where
  "to_rgba subImg =
     (let rgbaImg = NewRGBA (bounds subImg) in Draw rgbaImg (bounds rgbaImg) subImg 0 0)"

text \<open>Lines 95 to 115 together: crop, scale, copy.\<close>

definition crop_scale :: "env \<Rightarrow> request \<Rightarrow> image \<Rightarrow> int \<times> int \<times> int \<times> int \<Rightarrow> response + image" where
  "crop_scale env r img box =
     (case box of (x1, y1, x2, y2) \<Rightarrow>
        (case scale_step env r (SubImage img (Rect x1 y1 x2 y2)) of
           Inl e \<Rightarrow> Inl e
         | Inr subImg \<Rightarrow> Inr (to_rgba subImg)))"

text \<open>Lines 137 to 149: the colour of the label.\<close>

definition label_color :: "string \<Rightarrow> rgba" where
  "label_color colorParam =
     (if colorParam \<noteq> [] then
        (case ParseUint colorParam 16 32 of
           Inr colHex \<Rightarrow>
             RGBA (of_nat (drop_bit 16 colHex)) (of_nat (drop_bit 8 colHex AND 255))
                  (of_nat (colHex AND 255)) 255
         | Inl err \<Rightarrow> RGBA 255 255 255 255)
      else RGBA 255 255 255 255)"

text \<open>Lines 120 to 134: the text of the label.\<close>

definition label_text :: "env \<Rightarrow> request \<Rightarrow> stored \<Rightarrow> string" where
  "label_text env r f =
     (let label = ''FileTime: '' @ format_time env (mtime f) @ '' CurrentTime: ''
                    @ format_time env (now env)
      in if Get (Query r) ''id'' \<noteq> []
         then label @ '' IP: '' @ client_ip r @ '' User-Agent: '' @ Get (Header r) ''User-Agent''
         else label)"

text \<open>Lines 117 to 152: the label, unless \<open>nolabel\<close> is set.\<close>

definition label_step :: "env \<Rightarrow> request \<Rightarrow> stored \<Rightarrow> image \<Rightarrow> image" where
  "label_step env r f rgbaImg =
     (if Get (Query r) ''nolabel'' = []
      then drawText env rgbaImg (label_text env r f) 10 20 (label_color (Get (Query r) ''color''))
      else rgbaImg)"

text \<open>
  Lines 154 to 164: \<open>jpeg.Encode\<close> refuses a raster with a side of 65536 pixels or
  more and encodes every other one.
\<close>

definition encode_step :: "image \<Rightarrow> response" where
  "encode_step rgbaImg =
     (if Dx (bounds rgbaImg) \<ge> 2 ^ 16 \<or> Dy (bounds rgbaImg) \<ge> 2 ^ 16
      then HTTPError 500 ''Error encoding the cropped image''
      else ImageJPEG rgbaImg)"

definition scaledHandler :: "env \<Rightarrow> string \<Rightarrow> store \<Rightarrow> request \<Rightarrow> response" where
  "scaledHandler env saveDir fs r =
     (let filename = Get (Query r) ''filename''
      in if filename = [] \<or> \<not> MatchString validFilename filename
         then HTTPError 400 ''Invalid or missing filename''
         else
           (case fs (file_path saveDir filename) of
              None \<Rightarrow> HTTPError 404 ''File not found''
            | Some f \<Rightarrow>
                if stat_fails env (file_path saveDir filename)
                then HTTPError 500 ''Error getting file info''
                else
                  (case jpeg_decode env (content f) of
                     None \<Rightarrow> HTTPError 500 ''Error decoding the image''
                   | Some img \<Rightarrow>
                       (case box_params r img of
                          Inl e \<Rightarrow> e
                        | Inr box \<Rightarrow>
                            (case crop_scale env r img box of
                               Inl e \<Rightarrow> e
                             | Inr rgbaImg \<Rightarrow> encode_step (label_step env r f rgbaImg))))))"

subsection \<open>saveHandler\<close>

text \<open>
  The handler returns its response and the directory as it leaves it. \<open>os.Create\<close>
  truncates the file; a write that fails leaves the bytes that were written. The three
  log lines after the write are output only and are not modelled.
\<close>

definition isValidJPEG :: "env \<Rightarrow> bytes \<Rightarrow> bool" where
  "isValidJPEG env data = (jpeg_decode env data \<noteq> None)"

definition saveHandler ::
  "env \<Rightarrow> string \<Rightarrow> int \<Rightarrow> string \<Rightarrow> store \<Rightarrow> request \<Rightarrow> response \<times> store" where
  "saveHandler env saveDir maxSize bearerToken fs r =
     (if Method r \<noteq> ''POST'' then (HTTPError 405 ''Only POST requests are allowed'', fs)
      else
        let authHeader = Get (Header r) ''Authorization''
        in if authHeader = [] \<or> authHeader \<noteq> ''Bearer '' @ bearerToken
           then (HTTPError 401 ''Unauthorized'', fs)
           else
             let filename = Get (Query r) ''filename''
             in if filename = [] \<or> \<not> MatchString validFilename filename
                then (HTTPError 400 ''Invalid or missing filename'', fs)
                else
                  (case map_of (FormFile r) ''image'' of
                     None \<Rightarrow> (HTTPError 400 ''Error reading uploaded file'', fs)
                   | Some Unreadable \<Rightarrow> (HTTPError 500 ''Error reading file data'', fs)
                   | Some (Upload uploaded) \<Rightarrow>
                       let data = take (nat maxSize) uploaded
                       in if \<not> isValidJPEG env data
                          then (HTTPError 400 ''Uploaded file is not a valid JPEG'', fs)
                          else
                            let outFilePath = file_path saveDir filename
                            in if create_fails env outFilePath
                               then (HTTPError 500 ''Error saving the image'', fs)
                               else
                                 (case write_fails env outFilePath data of
                                    Some k \<Rightarrow>
                                      (HTTPError 500 ''Error writing to file'',
                                       fs(outFilePath \<mapsto>
                                            \<lparr>content = take k data, mtime = now env\<rparr>))
                                  | None \<Rightarrow>
                                      (StatusOK,
                                       fs(outFilePath \<mapsto>
                                            \<lparr>content = data, mtime = now env\<rparr>)))))"

section \<open>Vocabulary of the specification\<close>

text \<open>
  The words the specification uses for its inputs, as predicates: ASCII letters and
  digits, and the status code of a response.
\<close>

definition ascii_letter :: "char \<Rightarrow> bool" where
  "ascii_letter c = ((97 \<le> byte c \<and> byte c \<le> 122) \<or> (65 \<le> byte c \<and> byte c \<le> 90))"

definition ascii_digit :: "char \<Rightarrow> bool" where
  "ascii_digit c = (48 \<le> byte c \<and> byte c \<le> 57)"

fun status :: "response \<Rightarrow> nat" where
  "status (HTTPError code msg) = code"
| "status (ImageJPEG m) = 200"
| "status StatusOK = 200"

fun body_bounds :: "response \<Rightarrow> rectangle option" where
  "body_bounds (ImageJPEG m) = Some (bounds m)"
| "body_bounds (HTTPError code msg) = None"
| "body_bounds StatusOK = None"

text \<open>
  An upload passes validation when every stage before the write accepts it: method,
  bearer token, filename, a readable form field \<open>image\<close>, and bytes (cut at the size
  limit) that decode as JPEG.
\<close>

definition upload_valid :: "env \<Rightarrow> int \<Rightarrow> string \<Rightarrow> request \<Rightarrow> bool" where
  "upload_valid env maxSize bearerToken r =
     (Method r = ''POST''
      \<and> Get (Header r) ''Authorization'' = ''Bearer '' @ bearerToken
      \<and> filename_ok (Get (Query r) ''filename'')
      \<and> (case map_of (FormFile r) ''image'' of
            Some (Upload uploaded) \<Rightarrow> isValidJPEG env (take (nat maxSize) uploaded)
          | Some Unreadable \<Rightarrow> False
          | None \<Rightarrow> False))"

text \<open>
  Hexadecimal digits and the number a string of them denotes, most significant digit
  first.
\<close>

definition is_hex_digit :: "char \<Rightarrow> bool" where
  "is_hex_digit c =
     (ascii_digit c \<or> (97 \<le> byte c \<and> byte c \<le> 102) \<or> (65 \<le> byte c \<and> byte c \<le> 70))"

definition hex_digit_value :: "char \<Rightarrow> nat" where
  "hex_digit_value c =
     (if ascii_digit c then byte c - 48
      else if 97 \<le> byte c then byte c - 87
      else byte c - 55)"

definition hex_value :: "string \<Rightarrow> nat" where
  "hex_value s = foldl (\<lambda>n c. 16 * n + hex_digit_value c) 0 s"

text \<open>
  Decimal numerals, with and without a sign, and the numbers they denote. A box
  parameter is read as an \<open>int\<close> of 64 bits: its numeral has an optional sign and
  a value from \<open>-2^63\<close> to \<open>2^63 - 1\<close> (\<open>int_literal\<close>); \<open>w\<close> is read as an unsigned
  number of 32 bits: its numeral has no sign and a value below \<open>2^32\<close>
  (\<open>uint32_literal\<close>). A parameter is \<open>unparsable\<close> when it is present with a
  non-empty value that is not such a numeral.
\<close>

definition is_decimal :: "string \<Rightarrow> bool" where
  "is_decimal s = (s \<noteq> [] \<and> list_all ascii_digit s)"

definition is_signed_decimal :: "string \<Rightarrow> bool" where
  "is_signed_decimal s =
     (case s of
        [] \<Rightarrow> False
      | c # t \<Rightarrow> if c = CHR ''-'' \<or> c = CHR ''+'' then is_decimal t else is_decimal s)"

definition dec_fold :: "nat \<Rightarrow> string \<Rightarrow> nat" where
  "dec_fold n s = foldl (\<lambda>n c. 10 * n + (byte c - 48)) n s"

definition dec_value :: "string \<Rightarrow> nat" where
  "dec_value s = dec_fold 0 s"

definition signed_value :: "string \<Rightarrow> int" where
  "signed_value s =
     (case s of
        [] \<Rightarrow> 0
      | c # t \<Rightarrow> if c = CHR ''-'' then - int (dec_value t)
                else if c = CHR ''+'' then int (dec_value t)
                else int (dec_value s))"

definition int_literal :: "string \<Rightarrow> bool" where
  "int_literal s = (is_signed_decimal s \<and> - (2 ^ 63) \<le> signed_value s \<and> signed_value s < 2 ^ 63)"

definition uint32_literal :: "string \<Rightarrow> bool" where
  "uint32_literal s = (is_decimal s \<and> dec_value s < 2 ^ 32)"

definition unparsable :: "request \<Rightarrow> string \<Rightarrow> bool" where
  "unparsable r name =
     (Get (Query r) name \<noteq> []
      \<and> \<not> (if name = ''w'' then uint32_literal (Get (Query r) name)
            else int_literal (Get (Query r) name)))"

text \<open>
  A parameter the parser of the handler rejects: \<open>Atoi\<close> for the box,
  \<open>ParseUint\<close> for \<open>w\<close>.
\<close>

definition bad_param :: "request \<Rightarrow> string \<Rightarrow> bool" where
  "bad_param r name =
     (Get (Query r) name \<noteq> []
      \<and> (if name = ''w'' then isl (ParseUint (Get (Query r) name) 10 32)
         else isl (Atoi (Get (Query r) name))))"

text \<open>
  The crop box clipped to the bounds of an image, corner by corner (first the corners are
  put in order, then they are moved into the image), and the raster without pixels.
\<close>

definition clip_box :: "rectangle \<Rightarrow> int \<Rightarrow> int \<Rightarrow> int \<Rightarrow> int \<Rightarrow> rectangle" where
  "clip_box b x1 y1 x2 y2 =
     \<lparr>MinX = max (min x1 x2) (MinX b), MinY = max (min y1 y2) (MinY b),
      MaxX = min (max x1 x2) (MaxX b), MaxY = min (max y1 y2) (MaxY b)\<rparr>"

definition empty_image :: image where
  "empty_image = \<lparr>bounds = ZR, pix = no_pixels\<rparr>"

section \<open>Concrete inputs\<close>

text \<open>
  A small world for evaluating the handlers: one stored file \<open>test\<close> whose bytes
  decode to a black raster of 100 by 100 pixels, no failing system call, and a font
  that covers one pixel at the start point of a non-empty text.
\<close>

definition demo_image :: image where
  "demo_image = \<lparr>bounds = Rect 0 0 100 100, pix = (\<lambda>x y. RGBA 0 0 0 255)\<rparr>"

definition demo_env :: env where
  "demo_env =
     \<lparr>jpeg_decode = (\<lambda>d. if d = ''jpeg-bytes-100x100'' then Some demo_image else None),
      resample = (\<lambda>width height img x y. RGBA 0 0 0 255),
      glyphs = (\<lambda>text x y px py. text \<noteq> [] \<and> px = x \<and> py = y),
      format_time = (\<lambda>t. ''2006-01-02 15:04:05''),
      now = 0,
      conv_undef = 9223372036854775808,
      stat_fails = (\<lambda>p. False),
      create_fails = (\<lambda>p. False),
      write_fails = (\<lambda>p d. None)\<rparr>"

definition demo_store :: store where
  "demo_store = [file_path ''.'' ''test'' \<mapsto> \<lparr>content = ''jpeg-bytes-100x100'', mtime = 0\<rparr>]"

definition get_request :: "(string \<times> string) list \<Rightarrow> request" where
  "get_request q =
     \<lparr>Method = ''GET'', Query = q, Header = [(''User-Agent'', ''curl'')],
      RemoteAddr = ''192.0.2.1:4711'', FormFile = []\<rparr>"

definition post_request :: "string \<Rightarrow> string \<Rightarrow> bytes \<Rightarrow> request" where
  "post_request auth filename uploaded =
     \<lparr>Method = ''POST'', Query = [(''filename'', filename)],
      Header = [(''Authorization'', auth)],
      RemoteAddr = ''192.0.2.1:4711'', FormFile = [(''image'', Upload uploaded)]\<rparr>"



section \<open>Properties of the filename pattern\<close>

lemma byte_hyphen: "byte c = 45 \<longleftrightarrow> c = CHR ''-''"
proof
  assume "byte c = 45"
  then have "of_char c = (of_char CHR ''-'' :: nat)" by (simp add: byte_def)
  then show "c = CHR ''-''" by (simp only: of_char_eq_iff)
qed (simp add: byte_def)

lemma in_class_filename:
  "in_class [(CHR ''a'', CHR ''z''), (CHR ''A'', CHR ''Z''), (CHR ''0'', CHR ''9''),
             (CHR ''-'', CHR ''-'')] c
   \<longleftrightarrow> ascii_letter c \<or> ascii_digit c \<or> c = CHR ''-''"
proof -
  have "in_class [(CHR ''a'', CHR ''z''), (CHR ''A'', CHR ''Z''), (CHR ''0'', CHR ''9''),
             (CHR ''-'', CHR ''-'')] c
     \<longleftrightarrow> ascii_letter c \<or> ascii_digit c \<or> byte c = 45"
    by (auto simp add: in_class_def ascii_letter_def ascii_digit_def byte_def)
  then show ?thesis by (simp add: byte_hyphen)
qed

lemma plus_class_end:
  "list_ex (\<lambda>k. drop k s = []) [1 ..< Suc (length (takeWhile P s))]
   \<longleftrightarrow> s \<noteq> [] \<and> (\<forall>c\<in>set s. P c)"
proof
  assume "list_ex (\<lambda>k. drop k s = []) [1 ..< Suc (length (takeWhile P s))]"
  then obtain k where k: "1 \<le> k" "k \<le> length (takeWhile P s)" "length s \<le> k"
    by (auto simp add: list_ex_iff)
  have "length (takeWhile P s) \<le> length s" by (rule length_takeWhile_le)
  with k have "length (takeWhile P s) = length s" and "s \<noteq> []" by auto
  then show "s \<noteq> [] \<and> (\<forall>c\<in>set s. P c)"
    by (metis takeWhile_eq_all_conv takeWhile_eq_take take_all_iff order_refl)
next
  assume a: "s \<noteq> [] \<and> (\<forall>c\<in>set s. P c)"
  then have tw: "takeWhile P s = s" by (simp add: takeWhile_eq_all_conv)
  moreover from a have "1 \<le> length s" by (cases s) auto
  ultimately have "length s \<in> set [1 ..< Suc (length (takeWhile P s))]"
    by (simp only: tw) simp
  then show "list_ex (\<lambda>k. drop k s = []) [1 ..< Suc (length (takeWhile P s))]"
    unfolding list_ex_iff by (rule bexI [rotated]) simp
qed

lemma MatchString_validFilename:
  "MatchString validFilename s
   \<longleftrightarrow> s \<noteq> [] \<and> (\<forall>c\<in>set s. ascii_letter c \<or> ascii_digit c \<or> c = CHR ''-'')"
proof -
  let ?cls = "[(CHR ''a'', CHR ''z''), (CHR ''A'', CHR ''Z''), (CHR ''0'', CHR ''9''),
               (CHR ''-'', CHR ''-'')]"
  have "MatchString validFilename s
        \<longleftrightarrow> list_ex (\<lambda>k. drop k s = []) [1 ..< Suc (length (takeWhile (in_class ?cls) s))]"
    by (simp add: MatchString_def validFilename_def list_ex_iff Bex_def)
  then show ?thesis
    by (simp only: plus_class_end in_class_filename)
qed

lemma filename_ok_iff:
  "filename_ok s \<longleftrightarrow> s \<noteq> [] \<and> (\<forall>c\<in>set s. ascii_letter c \<or> ascii_digit c \<or> c = CHR ''-'')"
  by (auto simp add: filename_ok_def MatchString_validFilename)

section \<open>The filename check of both handlers\<close>

lemma filename_ok_unfold:
  "(filename = [] \<or> \<not> MatchString validFilename filename) = (\<not> filename_ok filename)"
  by (simp add: filename_ok_def)

lemma int_param_not_filename:
  "int_param r name d \<noteq> Inl (HTTPError 400 ''Invalid or missing filename'')"
  by (simp add: int_param_def Let_def split: sum.splits)

lemma box_params_not_filename:
  "box_params r img \<noteq> Inl (HTTPError 400 ''Invalid or missing filename'')"
  using int_param_not_filename
  by (auto simp add: box_params_def split: sum.splits)

lemma crop_scale_not_filename:
  "crop_scale env r img box \<noteq> Inl (HTTPError 400 ''Invalid or missing filename'')"
  by (auto simp add: crop_scale_def scale_step_def Let_def split: sum.splits prod.splits)

lemma encode_step_not_filename:
  "encode_step m \<noteq> HTTPError 400 ''Invalid or missing filename''"
  by (simp add: encode_step_def)

lemma scaled_bad_filename:
  "scaledHandler env saveDir fs r = HTTPError 400 ''Invalid or missing filename''
   \<longleftrightarrow> \<not> filename_ok (Get (Query r) ''filename'')"
  using box_params_not_filename [of r] crop_scale_not_filename [of env r]
    encode_step_not_filename
  by (auto simp add: scaledHandler_def Let_def filename_ok_unfold
      split: option.splits sum.splits)

lemma save_bad_filename:
  "Method r = ''POST'' \<Longrightarrow> Get (Header r) ''Authorization'' = ''Bearer '' @ bearerToken \<Longrightarrow>
   fst (saveHandler env saveDir maxSize bearerToken fs r)
     = HTTPError 400 ''Invalid or missing filename''
   \<longleftrightarrow> \<not> filename_ok (Get (Query r) ''filename'')"
  by (auto simp add: saveHandler_def Let_def filename_ok_unfold
      split: option.splits upload.splits)

text \<open>
  C10: the filename check accepts a name exactly when it is non-empty and made of ASCII
  letters, digits and hyphens only; the empty name and every name containing a slash
  or a dot is refused; and both handlers apply this same check: \<open>scaledHandler\<close>
  answers 400 ``Invalid or missing filename'' exactly when the check fails, and so does
  \<open>saveHandler\<close> for an authorised POST.
\<close>

theorem filename_validation:
  "(filename_ok s \<longleftrightarrow> s \<noteq> [] \<and> (\<forall>c\<in>set s. ascii_letter c \<or> ascii_digit c \<or> c = CHR ''-''))
   \<and> (s = [] \<or> CHR ''/'' \<in> set s \<or> CHR ''.'' \<in> set s \<longrightarrow> \<not> filename_ok s)
   \<and> (scaledHandler env saveDir fs r = HTTPError 400 ''Invalid or missing filename''
        \<longleftrightarrow> \<not> filename_ok (Get (Query r) ''filename''))
   \<and> (Method r = ''POST'' \<and> Get (Header r) ''Authorization'' = ''Bearer '' @ bearerToken
        \<longrightarrow> (fst (saveHandler env saveDir maxSize bearerToken fs r)
               = HTTPError 400 ''Invalid or missing filename''
             \<longleftrightarrow> \<not> filename_ok (Get (Query r) ''filename'')))"
proof -
  have slash: "\<not> (ascii_letter CHR ''/'' \<or> ascii_digit CHR ''/'' \<or> CHR ''/'' = CHR ''-'')"
    by (simp add: ascii_letter_def ascii_digit_def byte_def)
  have dot: "\<not> (ascii_letter CHR ''.'' \<or> ascii_digit CHR ''.'' \<or> CHR ''.'' = CHR ''-'')"
    by (simp add: ascii_letter_def ascii_digit_def byte_def)
  have "s = [] \<or> CHR ''/'' \<in> set s \<or> CHR ''.'' \<in> set s \<longrightarrow> \<not> filename_ok s"
    unfolding filename_ok_iff using slash dot by blast
  then show ?thesis
    using filename_ok_iff [of s] scaled_bad_filename [of env saveDir fs r]
      save_bad_filename [of r bearerToken env saveDir maxSize fs]
    by blast
qed

theorem filename_validation_witness:
  "list_all (\<lambda>c. ascii_letter c \<or> ascii_digit c \<or> c = CHR ''-'') ''test-1''
   \<and> filename_ok ''test-1''
   \<and> CHR ''/'' \<in> set ''../etc''
   \<and> \<not> filename_ok ''../etc''
   \<and> scaledHandler demo_env ''.'' demo_store (get_request [(''filename'', ''../etc'')])
       = HTTPError 400 ''Invalid or missing filename''
   \<and> fst (saveHandler demo_env ''.'' 1000000 ''secret'' demo_store
            (post_request ''Bearer secret'' ''../etc'' ''jpeg-bytes-100x100''))
       = HTTPError 400 ''Invalid or missing filename''"
proof -
  let ?g = "get_request [(''filename'', ''../etc'')]"
  let ?p = "post_request ''Bearer secret'' ''../etc'' ''jpeg-bytes-100x100''"
  have a: "\<forall>c\<in>set ''test-1''. ascii_letter c \<or> ascii_digit c \<or> c = CHR ''-''"
    by (simp add: ascii_letter_def ascii_digit_def byte_def)
  have b: "CHR ''/'' \<in> set ''../etc''" by simp
  have n: "''test-1'' \<noteq> []" by simp
  have q: "Get (Query ?g) ''filename'' = ''../etc''"
    by (simp add: get_request_def Get_def)
  have p: "Method ?p = ''POST''"
    "Get (Header ?p) ''Authorization'' = ''Bearer '' @ ''secret''"
    "Get (Query ?p) ''filename'' = ''../etc''"
    by (simp_all add: post_request_def Get_def)
  note t1 = filename_validation [of "''test-1''" demo_env "''.''" demo_store ?g "''secret''" 1000000]
  note t2 = filename_validation [of "''../etc''" demo_env "''.''" demo_store ?p "''secret''" 1000000]
  from t1 a n have c1: "filename_ok ''test-1''" by blast
  from t2 b have c2: "\<not> filename_ok ''../etc''" by blast
  from t1 c2 have c3: "scaledHandler demo_env ''.'' demo_store ?g
      = HTTPError 400 ''Invalid or missing filename''"
    unfolding q by blast
  from t2 c2 p have c4: "fst (saveHandler demo_env ''.'' 1000000 ''secret'' demo_store ?p)
      = HTTPError 400 ''Invalid or missing filename''"
    by metis
  from a have a': "list_all (\<lambda>c. ascii_letter c \<or> ascii_digit c \<or> c = CHR ''-'') ''test-1''"
    unfolding list_all_iff .
  from a' b c1 c2 c3 c4 show ?thesis by blast
qed

section \<open>The upload handler\<close>

text \<open>
  C6: a POST whose \<open>Authorization\<close> header is absent or is not \<open>Bearer\<close> followed by
  the configured token is answered with 401, whatever the filename, the form field and
  the bytes are, and the directory is left as it was.
\<close>

theorem save_unauthorized:
  "Method r = ''POST'' \<Longrightarrow>
   map_of (Header r) ''Authorization'' = None
     \<or> Get (Header r) ''Authorization'' \<noteq> ''Bearer '' @ bearerToken \<Longrightarrow>
   saveHandler env saveDir maxSize bearerToken fs r = (HTTPError 401 ''Unauthorized'', fs)"
  by (auto simp add: saveHandler_def Let_def Get_def)

theorem save_unauthorized_witness:
  "Method (post_request ''Bearer wrong'' ''test'' ''jpeg-bytes-100x100'') = ''POST''
   \<and> Get (Header (post_request ''Bearer wrong'' ''test'' ''jpeg-bytes-100x100'')) ''Authorization''
       \<noteq> ''Bearer '' @ ''secret''
   \<and> saveHandler demo_env ''.'' 1000000 ''secret'' demo_store
        (post_request ''Bearer wrong'' ''test'' ''jpeg-bytes-100x100'')
       = (HTTPError 401 ''Unauthorized'', demo_store)"
proof -
  let ?p = "post_request ''Bearer wrong'' ''test'' ''jpeg-bytes-100x100''"
  have m: "Method ?p = ''POST''"
    by (simp add: post_request_def)
  have h: "Get (Header ?p) ''Authorization'' \<noteq> ''Bearer '' @ ''secret''"
    by (simp add: post_request_def Get_def)
  from h have h': "map_of (Header ?p) ''Authorization'' = None
     \<or> Get (Header ?p) ''Authorization'' \<noteq> ''Bearer '' @ ''secret''" by (rule disjI2)
  from save_unauthorized [OF m h', of demo_env "''.''" 1000000 demo_store] m h
  show ?thesis by blast
qed

text \<open>
  C5: an upload that fails a validation stage (method, bearer token, filename, form
  field, JPEG test) leaves the directory unchanged and is answered with an error
  status; the directory changes only for an upload that passed every validation stage.
\<close>

theorem upload_no_partial_write:
  "(\<not> upload_valid env maxSize bearerToken r \<longrightarrow>
      snd (saveHandler env saveDir maxSize bearerToken fs r) = fs
      \<and> status (fst (saveHandler env saveDir maxSize bearerToken fs r)) \<in> {405, 401, 400, 500})
   \<and> (snd (saveHandler env saveDir maxSize bearerToken fs r) \<noteq> fs \<longrightarrow>
        upload_valid env maxSize bearerToken r)"
  by (auto simp add: saveHandler_def upload_valid_def Let_def filename_ok_unfold
      split: option.splits upload.splits)

theorem upload_no_partial_write_witness:
  "\<not> upload_valid demo_env 1000000 ''secret'' (post_request ''Bearer secret'' ''test'' ''GIF89a'')
   \<and> snd (saveHandler demo_env ''.'' 1000000 ''secret'' demo_store
            (post_request ''Bearer secret'' ''test'' ''GIF89a'')) = demo_store
   \<and> snd (saveHandler demo_env ''.'' 1000000 ''secret'' demo_store
            (post_request ''Bearer secret'' ''new'' ''jpeg-bytes-100x100'')) \<noteq> demo_store
   \<and> upload_valid demo_env 1000000 ''secret''
        (post_request ''Bearer secret'' ''new'' ''jpeg-bytes-100x100'')"
proof -
  let ?bad = "post_request ''Bearer secret'' ''test'' ''GIF89a''"
  let ?good = "post_request ''Bearer secret'' ''new'' ''jpeg-bytes-100x100''"
  have f: "filename_ok ''new''"
    by (simp add: filename_ok_iff ascii_letter_def ascii_digit_def byte_def)
  have a: "\<not> upload_valid demo_env 1000000 ''secret'' ?bad"
    by (simp add: upload_valid_def post_request_def Get_def isValidJPEG_def demo_env_def)
  have "snd (saveHandler demo_env ''.'' 1000000 ''secret'' demo_store ?good)
          (file_path ''.'' ''new'') \<noteq> demo_store (file_path ''.'' ''new'')"
    using f by (simp add: saveHandler_def post_request_def Get_def isValidJPEG_def demo_env_def
        demo_store_def file_path_def Let_def filename_ok_unfold)
  then have c: "snd (saveHandler demo_env ''.'' 1000000 ''secret'' demo_store ?good) \<noteq> demo_store"
    by auto
  note t1 = upload_no_partial_write [of demo_env 1000000 "''secret''" ?bad "''.''" demo_store]
  note t2 = upload_no_partial_write [of demo_env 1000000 "''secret''" ?good "''.''" demo_store]
  from t1 a have d: "snd (saveHandler demo_env ''.'' 1000000 ''secret'' demo_store ?bad) = demo_store"
    by blast
  from t2 c have e: "upload_valid demo_env 1000000 ''secret'' ?good" by blast
  from a d c e show ?thesis by blast
qed

section \<open>The colour of the label\<close>

lemma lower_hex_upper: "65 \<le> n \<Longrightarrow> n \<le> 70 \<Longrightarrow> lower n = n + 32"
proof -
  assume "65 \<le> n" "n \<le> 70"
  then have "n = 65 \<or> n = 66 \<or> n = 67 \<or> n = 68 \<or> n = 69 \<or> n = 70" by arith
  then show ?thesis by (auto simp add: lower_def)
qed

lemma lower_hex_lower: "97 \<le> n \<Longrightarrow> n \<le> 102 \<Longrightarrow> lower n = n"
proof -
  assume "97 \<le> n" "n \<le> 102"
  then have "n = 97 \<or> n = 98 \<or> n = 99 \<or> n = 100 \<or> n = 101 \<or> n = 102" by arith
  then show ?thesis by (auto simp add: lower_def)
qed

lemma digit_val_hex:
  assumes "is_hex_digit c"
  shows "digit_val c = Some (hex_digit_value c)" and "hex_digit_value c < 16"
proof -
  have b: "byte CHR ''0'' = 48" "byte CHR ''9'' = 57" "byte CHR ''a'' = 97" "byte CHR ''z'' = 122"
    by (simp_all add: byte_def)
  from assms consider (d) "48 \<le> byte c" "byte c \<le> 57"
    | (l) "97 \<le> byte c" "byte c \<le> 102" | (u) "65 \<le> byte c" "byte c \<le> 70"
    by (auto simp add: is_hex_digit_def ascii_digit_def)
  then have "digit_val c = Some (hex_digit_value c) \<and> hex_digit_value c < 16"
  proof cases
    case d
    then show ?thesis by (simp add: digit_val_def hex_digit_value_def ascii_digit_def b)
  next
    case l
    then show ?thesis
      by (simp add: digit_val_def hex_digit_value_def ascii_digit_def b lower_hex_lower)
  next
    case u
    then show ?thesis
      by (simp add: digit_val_def hex_digit_value_def ascii_digit_def b lower_hex_upper)
  qed
  then show "digit_val c = Some (hex_digit_value c)" and "hex_digit_value c < 16" by simp_all
qed

lemma parse_loop_hex:
  "\<forall>c\<in>set cs. is_hex_digit c \<Longrightarrow> length cs \<le> 8 \<Longrightarrow> n < 16 ^ (8 - length cs) \<Longrightarrow>
   parse_loop 16 (2 ^ 32 - 1) n cs = Inr (foldl (\<lambda>n c. 16 * n + hex_digit_value c) n cs)"
proof (induction cs arbitrary: n)
  case Nil
  then show ?case by simp
next
  case (Cons c cs)
  let ?d = "hex_digit_value c"
  from Cons.prems have hex: "is_hex_digit c" and len: "length cs \<le> 7" by simp_all
  from digit_val_hex [OF hex] have dv: "digit_val c = Some ?d" and d16: "?d < 16" by simp_all
  from Cons.prems len have n: "n < 16 ^ (7 - length cs)" by (simp add: Suc_diff_le)
  have "(16::nat) ^ (7 - length cs) \<le> 16 ^ 7" by (rule power_increasing) simp_all
  with n have n7: "n < 16 ^ 7" by simp
  have "16 * n + ?d < 16 * 16 ^ (7 - length cs)" using n d16 by simp
  also have "(16::nat) * 16 ^ (7 - length cs) = 16 ^ (8 - length cs)"
    using len by (simp add: Suc_diff_le flip: power_Suc)
  finally have n1: "16 * n + ?d < 16 ^ (8 - length cs)" .
  have "(16::nat) ^ (8 - length cs) \<le> 16 ^ 8" by (rule power_increasing) simp_all
  with n1 have n1b: "16 * n + ?d < 4294967296" by simp
  have ih: "parse_loop 16 (2 ^ 32 - 1) (16 * n + ?d) cs
      = Inr (foldl (\<lambda>n c. 16 * n + hex_digit_value c) (16 * n + ?d) cs)"
    using Cons.IH [of "16 * n + ?d"] Cons.prems n1 by simp
  from n7 have cut: "\<not> n \<ge> maxUint64 div 16 + 1" by (simp add: maxUint64_def)
  from n1b have m: "(n * 16 + ?d) mod 2 ^ 64 = 16 * n + ?d" by simp
  show ?case
    using dv d16 cut n1b ih by (simp add: Let_def m mult.commute)
qed

lemma ParseUint_hex:
  "s \<noteq> [] \<Longrightarrow> length s \<le> 8 \<Longrightarrow> \<forall>c\<in>set s. is_hex_digit c \<Longrightarrow>
   ParseUint s 16 32 = Inr (hex_value s)"
  using parse_loop_hex [of s 0] by (simp add: ParseUint_def hex_value_def)

lemma and_255: "(x::nat) AND 255 = x mod 256"
proof -
  have "x AND mask 8 = take_bit 8 x" by (simp add: take_bit_eq_mask)
  moreover have "mask 8 = (255::nat)" by (simp add: mask_eq_exp_minus_1)
  ultimately show ?thesis by (simp add: take_bit_eq_mod)
qed

lemma label_color_parsed:
  "ParseUint s 16 32 = Inr v \<Longrightarrow>
   label_color s = RGBA (of_nat (v div 2 ^ 16 mod 2 ^ 8)) (of_nat (v div 2 ^ 8 mod 2 ^ 8))
                        (of_nat (v mod 2 ^ 8)) 255"
  by (simp add: label_color_def ParseUint_def drop_bit_eq_div word_of_nat_eq_iff take_bit_eq_mod
      and_255 split: if_splits)

lemma label_color_failed:
  "ParseUint s 16 32 = Inl e \<Longrightarrow> label_color s = RGBA 255 255 255 255"
  by (simp add: label_color_def)

section \<open>Requests that agree on the parameters a stage reads\<close>

lemma Get_cons: "Get ((k, v) # q) k' = (if k' = k then v else Get q k')"
  by (simp add: Get_def)

lemma hex_value_FFFFFF: "ParseUint ''FFFFFF'' 16 32 = Inr 16777215"
proof -
  have "ParseUint ''FFFFFF'' 16 32 = Inr (hex_value ''FFFFFF'')"
    by (rule ParseUint_hex) (simp_all add: is_hex_digit_def ascii_digit_def byte_def)
  then show ?thesis by (simp add: hex_value_def hex_digit_value_def ascii_digit_def byte_def)
qed

lemma label_color_FFFFFF: "label_color ''FFFFFF'' = RGBA 255 255 255 255"
  using label_color_parsed [OF hex_value_FFFFFF] by simp

lemma hex_value_FF0000: "ParseUint ''FF0000'' 16 32 = Inr 16711680"
proof -
  have "ParseUint ''FF0000'' 16 32 = Inr (hex_value ''FF0000'')"
    by (rule ParseUint_hex) (simp_all add: is_hex_digit_def ascii_digit_def byte_def)
  then show ?thesis by (simp add: hex_value_def hex_digit_value_def ascii_digit_def byte_def)
qed

lemma label_color_FF0000: "label_color ''FF0000'' = RGBA 255 0 0 255"
  using label_color_parsed [OF hex_value_FF0000] by simp

lemma ParseUint_zzzzzz: "ParseUint ''zzzzzz'' 16 32 = Inl ErrSyntax"
  by (simp add: ParseUint_def digit_val_def byte_def lower_def)

lemma int_param_agree:
  "Get (Query r') name = Get (Query r) name \<Longrightarrow> int_param r' name d = int_param r name d"
  by (simp add: int_param_def)

lemma box_params_agree:
  assumes "Get (Query r') ''x1'' = Get (Query r) ''x1''" "Get (Query r') ''y1'' = Get (Query r) ''y1''"
    and "Get (Query r') ''x2'' = Get (Query r) ''x2''" "Get (Query r') ''y2'' = Get (Query r) ''y2''"
  shows "box_params r' img = box_params r img"
  unfolding box_params_def
    int_param_agree [OF assms(1)] int_param_agree [OF assms(2)]
    int_param_agree [OF assms(3)] int_param_agree [OF assms(4)] ..

lemma Resize_now: "Resize (env\<lparr>now := t\<rparr>) width height img = Resize env width height img"
  by (simp add: Resize_def Let_def cong: prod.case_cong if_cong)

lemma newHeight_now: "newHeight (env\<lparr>now := t\<rparr>) width img = newHeight env width img"
  by (simp add: newHeight_def)

lemma scale_step_agree:
  "Get (Query r') ''w'' = Get (Query r) ''w'' \<Longrightarrow>
   scale_step (env\<lparr>now := t\<rparr>) r' subImg = scale_step env r subImg"
  by (simp add: scale_step_def Resize_now newHeight_now Let_def cong: sum.case_cong)

lemma crop_scale_agree:
  "Get (Query r') ''w'' = Get (Query r) ''w'' \<Longrightarrow>
   crop_scale (env\<lparr>now := t\<rparr>) r' img box = crop_scale env r img box"
  by (cases box) (simp add: crop_scale_def scale_step_agree)

lemma scaled_agree:
  assumes "Get (Query r') ''filename'' = Get (Query r) ''filename''"
    and "Get (Query r') ''x1'' = Get (Query r) ''x1''" "Get (Query r') ''y1'' = Get (Query r) ''y1''"
    and "Get (Query r') ''x2'' = Get (Query r) ''x2''" "Get (Query r') ''y2'' = Get (Query r) ''y2''"
    and "Get (Query r') ''w'' = Get (Query r) ''w''"
    and "\<And>f m. label_step (env\<lparr>now := t\<rparr>) r' f m = label_step env r f m"
  shows "scaledHandler (env\<lparr>now := t\<rparr>) saveDir fs r' = scaledHandler env saveDir fs r"
proof -
  have b: "\<And>img. box_params r' img = box_params r img"
    by (rule box_params_agree) (fact assms)+
  have c: "\<And>img box. crop_scale (env\<lparr>now := t\<rparr>) r' img box = crop_scale env r img box"
    by (rule crop_scale_agree) (fact assms)
  show ?thesis
    unfolding scaledHandler_def assms(1) b c assms(7)
    by (simp add: Let_def cong: option.case_cong if_cong)
qed

lemma label_text_other_key:
  "k \<noteq> ''id'' \<Longrightarrow> label_text env (r\<lparr>Query := (k, v) # Query r\<rparr>) f = label_text env r f"
  by (simp add: label_text_def client_ip_def Get_cons Let_def)

lemma label_step_white:
  "label_color (Get (Query r) ''color'') = RGBA 255 255 255 255 \<Longrightarrow>
   label_step env (r\<lparr>Query := (''color'', ''FFFFFF'') # Query r\<rparr>) f m = label_step env r f m"
  by (simp add: label_step_def label_text_other_key Get_cons label_color_FFFFFF)

lemma scaled_color_white:
  assumes "label_color (Get (Query r) ''color'') = RGBA 255 255 255 255"
  shows "scaledHandler env saveDir fs r
         = scaledHandler env saveDir fs (r\<lparr>Query := (''color'', ''FFFFFF'') # Query r\<rparr>)"
proof -
  let ?r' = "r\<lparr>Query := (''color'', ''FFFFFF'') # Query r\<rparr>"
  have "scaledHandler (env\<lparr>now := now env\<rparr>) saveDir fs ?r' = scaledHandler env saveDir fs r"
    by (rule scaled_agree) (simp_all add: Get_cons label_step_white [OF assms])
  then show ?thesis by simp
qed

lemma label_pixel:
  "Get (Query r) ''nolabel'' = [] \<Longrightarrow> In px py (bounds m) \<Longrightarrow>
   glyphs env (label_text env r f) 10 20 px py \<Longrightarrow>
   pix (label_step env r f m) px py = label_color (Get (Query r) ''color'')"
  by (simp add: label_step_def drawText_def)



section \<open>Rendering without a label\<close>

lemma label_step_nolabel:
  "Get (Query r) ''nolabel'' \<noteq> [] \<Longrightarrow> label_step env r f m = m"
  by (simp add: label_step_def)

lemma scaled_nolabel_result:
  "Get (Query r) ''nolabel'' \<noteq> [] \<Longrightarrow> filename_ok (Get (Query r) ''filename'') \<Longrightarrow>
   fs (file_path saveDir (Get (Query r) ''filename'')) = Some f \<Longrightarrow>
   \<not> stat_fails env (file_path saveDir (Get (Query r) ''filename'')) \<Longrightarrow>
   jpeg_decode env (content f) = Some img \<Longrightarrow> box_params r img = Inr box \<Longrightarrow>
   crop_scale env r img box = Inr m \<Longrightarrow>
   scaledHandler env saveDir fs r = encode_step m"
  by (simp add: scaledHandler_def Let_def label_step_nolabel filename_ok_def)

lemma scaled_nolabel_agree:
  assumes "Get (Query r) ''nolabel'' \<noteq> []" "Get (Query r') ''nolabel'' \<noteq> []"
    and "list_all (\<lambda>k. Get (Query r') k = Get (Query r) k)
           [''filename'', ''x1'', ''y1'', ''x2'', ''y2'', ''w'']"
  shows "scaledHandler (env\<lparr>now := t\<rparr>) saveDir fs r' = scaledHandler env saveDir fs r"
proof (rule scaled_agree)
  fix f m
  show "label_step (env\<lparr>now := t\<rparr>) r' f m = label_step env r f m"
    using assms(1,2) by (simp add: label_step_nolabel)
qed (use assms(3) in simp_all)

text \<open>
  C9: when \<open>nolabel\<close> has a non-empty value nothing is drawn on the raster: the
  response is the encoding of the result of the crop-and-scale step, and it is the
  same for every request with the same \<open>filename\<close>, \<open>x1\<close>, \<open>y1\<close>, \<open>x2\<close>,
  \<open>y2\<close> and \<open>w\<close>, whatever \<open>id\<close>, \<open>color\<close>, the headers, the peer address
  and the clock are.
\<close>

theorem nolabel_no_overlay:
  "Get (Query r) ''nolabel'' \<noteq> [] \<Longrightarrow>
   label_step env r f m = m
   \<and> (filename_ok (Get (Query r) ''filename'')
        \<and> fs (file_path saveDir (Get (Query r) ''filename'')) = Some f
        \<and> \<not> stat_fails env (file_path saveDir (Get (Query r) ''filename''))
        \<and> jpeg_decode env (content f) = Some img
        \<and> box_params r img = Inr box \<and> crop_scale env r img box = Inr m
       \<longrightarrow> scaledHandler env saveDir fs r = encode_step m)
   \<and> (Get (Query r') ''nolabel'' \<noteq> []
        \<and> list_all (\<lambda>k. Get (Query r') k = Get (Query r) k)
             [''filename'', ''x1'', ''y1'', ''x2'', ''y2'', ''w'']
       \<longrightarrow> scaledHandler (env\<lparr>now := t\<rparr>) saveDir fs r' = scaledHandler env saveDir fs r)"
  using label_step_nolabel scaled_nolabel_result scaled_nolabel_agree
  by blast

lemma bounds_to_rgba: "bounds (to_rgba subImg) = bounds subImg"
  by (simp add: to_rgba_def Draw_def NewRGBA_def Let_def)

lemma filename_ok_test: "filename_ok ''test''"
  by (simp add: filename_ok_iff ascii_letter_def ascii_digit_def byte_def)

lemma demo_load:
  assumes "Get (Query r) ''filename'' = ''test''"
  shows "scaledHandler demo_env ''.'' demo_store r =
     (case box_params r demo_image of
        Inl e \<Rightarrow> e
      | Inr box \<Rightarrow>
          (case crop_scale demo_env r demo_image box of
             Inl e \<Rightarrow> e
           | Inr rgbaImg \<Rightarrow>
               encode_step (label_step demo_env r
                 \<lparr>content = ''jpeg-bytes-100x100'', mtime = 0\<rparr> rgbaImg)))"
proof -
  have "jpeg_decode demo_env ''jpeg-bytes-100x100'' = Some demo_image"
    and "\<And>p. \<not> stat_fails demo_env p"
    by (simp_all add: demo_env_def)
  then show ?thesis
    using filename_ok_test assms
    by (simp add: scaledHandler_def filename_ok_def demo_store_def file_path_def)
qed

theorem nolabel_no_overlay_witness:
  "Get (Query (get_request [(''filename'', ''test''), (''x2'', ''50''), (''y2'', ''50''),
                            (''nolabel'', ''true'')])) ''nolabel'' = ''true''
   \<and> scaledHandler (demo_env\<lparr>now := 86400\<rparr>) ''.'' demo_store
        ((get_request [(''id'', ''1''), (''color'', ''FF0000''), (''nolabel'', ''1''),
                       (''filename'', ''test''), (''x2'', ''50''), (''y2'', ''50'')])
           \<lparr>RemoteAddr := ''198.51.100.7:80''\<rparr>)
       = scaledHandler demo_env ''.'' demo_store
           (get_request [(''filename'', ''test''), (''x2'', ''50''), (''y2'', ''50''),
                         (''nolabel'', ''true'')])
   \<and> scaledHandler demo_env ''.'' demo_store
         (get_request [(''filename'', ''test''), (''x2'', ''50''), (''y2'', ''50''),
                       (''nolabel'', ''true'')])
       = ImageJPEG (to_rgba (SubImage demo_image (Rect 0 0 50 50)))"
proof -
  let ?r = "get_request [(''filename'', ''test''), (''x2'', ''50''), (''y2'', ''50''),
                         (''nolabel'', ''true'')]"
  let ?r' = "(get_request [(''id'', ''1''), (''color'', ''FF0000''), (''nolabel'', ''1''),
                       (''filename'', ''test''), (''x2'', ''50''), (''y2'', ''50'')])
           \<lparr>RemoteAddr := ''198.51.100.7:80''\<rparr>"
  let ?f = "\<lparr>content = ''jpeg-bytes-100x100'', mtime = 0\<rparr>"
  let ?m = "to_rgba (SubImage demo_image (Rect 0 0 50 50))"
  have n: "Get (Query ?r) ''nolabel'' = ''true''" by (simp add: get_request_def Get_def)
  then have n0: "Get (Query ?r) ''nolabel'' \<noteq> []" by simp
  have n': "Get (Query ?r') ''nolabel'' \<noteq> []" by (simp add: get_request_def Get_def)
  have a: "list_all (\<lambda>k. Get (Query ?r') k = Get (Query ?r) k)
             [''filename'', ''x1'', ''y1'', ''x2'', ''y2'', ''w'']"
    by (simp add: get_request_def Get_def)
  have fn: "Get (Query ?r) ''filename'' = ''test''" by (simp add: get_request_def Get_def)
  have l: "demo_store (file_path ''.'' ''test'') = Some ?f" by (simp add: demo_store_def)
  have s: "\<not> stat_fails demo_env (file_path ''.'' ''test'')" by (simp add: demo_env_def)
  have d: "jpeg_decode demo_env (content ?f) = Some demo_image" by (simp add: demo_env_def)
  have b: "box_params ?r demo_image = Inr (0, 0, 50, 50)"
    by (simp add: box_params_def int_param_def get_request_def Get_def Atoi_def byte_def)
  have c: "crop_scale demo_env ?r demo_image (0, 0, 50, 50) = Inr ?m"
    by (simp add: crop_scale_def scale_step_def get_request_def Get_def)
  have e: "encode_step ?m = ImageJPEG ?m"
    by (simp add: encode_step_def bounds_to_rgba SubImage_def Intersect_def Rect_def Empty_def
        demo_image_def Dx_def Dy_def Let_def)
  note t = nolabel_no_overlay [OF n0, where env = demo_env and f = ?f and m = ?m
      and saveDir = "''.''" and fs = demo_store and img = demo_image
      and box = "(0, 0, 50, 50)" and r' = ?r' and t = 86400]
  from t filename_ok_test l s d b c n' a fn
  have "scaledHandler (demo_env\<lparr>now := 86400\<rparr>) ''.'' demo_store ?r'
          = scaledHandler demo_env ''.'' demo_store ?r"
    and "scaledHandler demo_env ''.'' demo_store ?r = encode_step ?m"
    by simp_all
  with n e show ?thesis by simp
qed

section \<open>Numeric parameters\<close>

lemma byte_less_256: "byte c < 256"
proof -
  have "byte c mod 256 = byte c" by (simp add: byte_def)
  then show ?thesis by (metis mod_less_divisor zero_less_numeral)
qed

lemma byte_consts:
  "byte CHR ''0'' = 48" "byte CHR ''9'' = 57" "byte CHR ''a'' = 97" "byte CHR ''z'' = 122"
  by (simp_all add: byte_def)

lemma digit_val_decimal:
  assumes "digit_val c = Some d" "d < 10"
  shows "ascii_digit c"
proof (cases "48 \<le> byte c \<and> byte c \<le> 57")
  case True
  then show ?thesis by (simp add: ascii_digit_def)
next
  case False
  with assms(1) have "d = lower (byte c) - 97 + 10"
    by (simp add: digit_val_def byte_consts split: if_splits)
  with assms(2) show ?thesis by simp
qed

lemma parse_loop_decimal: "parse_loop 10 maxVal n cs = Inr v \<Longrightarrow> list_all ascii_digit cs"
proof (induction cs arbitrary: n)
  case Nil
  then show ?case by simp
next
  case (Cons c cs)
  from Cons.prems obtain d where d: "digit_val c = Some d" "d < 10"
    and rest: "parse_loop 10 maxVal ((n * 10 + d) mod 2 ^ 64) cs = Inr v"
    by (auto simp add: Let_def split: option.splits if_splits)
  from digit_val_decimal [OF d] Cons.IH [OF rest] show ?case by simp
qed

lemma ParseUint_decimal: "ParseUint s 10 bitSize = Inr v \<Longrightarrow> is_decimal s"
  by (auto simp add: ParseUint_def is_decimal_def parse_loop_decimal split: if_splits)

lemma atoi_loop_decimal: "atoi_loop n cs = Inr v \<Longrightarrow> list_all ascii_digit cs"
proof (induction cs arbitrary: n)
  case Nil
  then show ?case by simp
next
  case (Cons c cs)
  let ?ch = "(byte c + 256 - byte CHR ''0'') mod 256"
  from Cons.prems have ch: "\<not> ?ch > 9"
    and rest: "atoi_loop (n * 10 + int ?ch) cs = Inr v"
    by (auto simp add: Let_def split: if_splits)
  have "ascii_digit c"
  proof (cases "byte c < 48")
    case True
    then have "?ch = byte c + 208" by (simp add: byte_consts)
    with ch show ?thesis by simp
  next
    case False
    with byte_less_256 [of c] have "?ch = byte c - 48"
      by (simp add: byte_consts mod_if)
    with ch False show ?thesis by (simp add: ascii_digit_def)
  qed
  with Cons.IH [OF rest] show ?case by simp
qed

lemma Atoi_signed_decimal:
  assumes "Atoi s = Inr v"
  shows "is_signed_decimal s"
proof (cases s)
  case Nil
  with assms show ?thesis by (simp add: Atoi_def ParseInt_def)
next
  case (Cons c t)
  define s1 where "s1 = (if c = CHR ''-'' \<or> c = CHR ''+'' then t else s)"
  have sd: "is_decimal s1 \<Longrightarrow> is_signed_decimal s"
    using Cons by (auto simp add: s1_def is_signed_decimal_def)
  show ?thesis
  proof (cases "length s < 19")
    case True
    with assms Cons have "s1 \<noteq> [] \<and> (\<exists>n. atoi_loop 0 s1 = Inr n)"
      unfolding s1_def Atoi_def
      by (auto simp add: Let_def simp del: atoi_loop.simps split: if_splits sum.splits)
    then have "is_decimal s1"
      by (auto simp add: is_decimal_def dest: atoi_loop_decimal)
    then show ?thesis by (rule sd)
  next
    case False
    with assms Cons have "\<exists>un. ParseUint s1 10 0 = Inr un"
      unfolding s1_def Atoi_def ParseInt_def
      by (auto simp add: Let_def split: if_splits sum.splits num_error.splits)
    then have "is_decimal s1" by (auto dest: ParseUint_decimal)
    then show ?thesis by (rule sd)
  qed
qed

lemma scaled_loaded:
  assumes "filename_ok (Get (Query r) ''filename'')"
    and "fs (file_path saveDir (Get (Query r) ''filename'')) = Some f"
    and "\<not> stat_fails env (file_path saveDir (Get (Query r) ''filename''))"
    and "jpeg_decode env (content f) = Some img"
  shows "scaledHandler env saveDir fs r =
     (case box_params r img of
        Inl e \<Rightarrow> e
      | Inr box \<Rightarrow>
          (case crop_scale env r img box of
             Inl e \<Rightarrow> e
           | Inr rgbaImg \<Rightarrow> encode_step (label_step env r f rgbaImg)))"
  using assms by (simp add: scaledHandler_def filename_ok_def)

lemma int_param_bad:
  "bad_param r name \<Longrightarrow> name \<noteq> ''w'' \<Longrightarrow>
   int_param r name d = Inl (HTTPError 400 (''Invalid '' @ name @ '' parameter''))"
  by (auto simp add: bad_param_def int_param_def isl_def)

lemma int_param_good:
  "\<not> bad_param r name \<Longrightarrow> name \<noteq> ''w'' \<Longrightarrow> \<exists>v. int_param r name d = Inr v"
  by (cases "Atoi (Get (Query r) name)") (auto simp add: bad_param_def int_param_def Let_def)

lemma scale_step_bad:
  "bad_param r ''w'' \<Longrightarrow> scale_step env r subImg = Inl (HTTPError 400 ''Invalid w parameter'')"
  by (auto simp add: bad_param_def scale_step_def isl_def)

lemma box_params_first_bad:
  assumes "find (bad_param r) [''x1'', ''y1'', ''x2'', ''y2'', ''w''] = Some name"
  shows "(name \<noteq> ''w'' \<and> box_params r img = Inl (HTTPError 400 (''Invalid '' @ name @ '' parameter'')))
         \<or> (name = ''w'' \<and> bad_param r ''w'' \<and> (\<exists>box. box_params r img = Inr box))"
proof -
  consider (x1) "bad_param r ''x1''" "name = ''x1''"
    | (y1) "\<not> bad_param r ''x1''" "bad_param r ''y1''" "name = ''y1''"
    | (x2) "\<not> bad_param r ''x1''" "\<not> bad_param r ''y1''" "bad_param r ''x2''" "name = ''x2''"
    | (y2) "\<not> bad_param r ''x1''" "\<not> bad_param r ''y1''" "\<not> bad_param r ''x2''"
        "bad_param r ''y2''" "name = ''y2''"
    | (w) "\<not> bad_param r ''x1''" "\<not> bad_param r ''y1''" "\<not> bad_param r ''x2''"
        "\<not> bad_param r ''y2''" "bad_param r ''w''" "name = ''w''"
    using assms by (auto split: if_splits)
  then show ?thesis
  proof cases
    case x1
    then show ?thesis
      using int_param_bad [of r "''x1''" 0] by (simp add: box_params_def)
  next
    case y1
    from int_param_good [OF y1(1), of 0] obtain a where "int_param r ''x1'' 0 = Inr a" by auto
    with y1 show ?thesis
      using int_param_bad [of r "''y1''" 0] by (simp add: box_params_def)
  next
    case x2
    from int_param_good [OF x2(1), of 0] obtain a where "int_param r ''x1'' 0 = Inr a" by auto
    moreover from int_param_good [OF x2(2), of 0] obtain b where "int_param r ''y1'' 0 = Inr b"
      by auto
    ultimately show ?thesis
      using x2 int_param_bad [of r "''x2''" "MaxX (bounds img)"] by (simp add: box_params_def)
  next
    case y2
    from int_param_good [OF y2(1), of 0] obtain a where "int_param r ''x1'' 0 = Inr a" by auto
    moreover from int_param_good [OF y2(2), of 0] obtain b where "int_param r ''y1'' 0 = Inr b"
      by auto
    moreover from int_param_good [OF y2(3), of "MaxX (bounds img)"]
    obtain c where "int_param r ''x2'' (MaxX (bounds img)) = Inr c" by auto
    ultimately show ?thesis
      using y2 int_param_bad [of r "''y2''" "MaxY (bounds img)"] by (simp add: box_params_def)
  next
    case w
    from int_param_good [OF w(1), of 0] obtain a where "int_param r ''x1'' 0 = Inr a" by auto
    moreover from int_param_good [OF w(2), of 0] obtain b where "int_param r ''y1'' 0 = Inr b"
      by auto
    moreover from int_param_good [OF w(3), of "MaxX (bounds img)"]
    obtain c where "int_param r ''x2'' (MaxX (bounds img)) = Inr c" by auto
    moreover from int_param_good [OF w(4), of "MaxY (bounds img)"]
    obtain d where "int_param r ''y2'' (MaxY (bounds img)) = Inr d" by auto
    ultimately show ?thesis
      using w by (simp add: box_params_def)
  qed
qed

lemma scaled_first_bad:
  assumes "filename_ok (Get (Query r) ''filename'')"
    and "fs (file_path saveDir (Get (Query r) ''filename'')) = Some f"
    and "\<not> stat_fails env (file_path saveDir (Get (Query r) ''filename''))"
    and "jpeg_decode env (content f) = Some img"
    and "find (bad_param r) [''x1'', ''y1'', ''x2'', ''y2'', ''w''] = Some name"
  shows "scaledHandler env saveDir fs r = HTTPError 400 (''Invalid '' @ name @ '' parameter'')"
proof -
  from box_params_first_bad [OF assms(5), of img]
  show ?thesis
  proof
    assume "name \<noteq> ''w'' \<and> box_params r img
              = Inl (HTTPError 400 (''Invalid '' @ name @ '' parameter''))"
    then show ?thesis by (simp add: scaled_loaded [where fs = fs, OF assms(1-4)])
  next
    assume a: "name = ''w'' \<and> bad_param r ''w'' \<and> (\<exists>box. box_params r img = Inr box)"
    then obtain box where b: "box_params r img = Inr box" by auto
    from a have "crop_scale env r img box = Inl (HTTPError 400 ''Invalid w parameter'')"
      by (cases box) (simp add: crop_scale_def scale_step_bad)
    with a b show ?thesis by (simp add: scaled_loaded [where fs = fs, OF assms(1-4)])
  qed
qed

lemma find_bad_exists:
  "name \<in> set [''x1'', ''y1'', ''x2'', ''y2'', ''w''] \<Longrightarrow> bad_param r name \<Longrightarrow>
   \<exists>n. find (bad_param r) [''x1'', ''y1'', ''x2'', ''y2'', ''w''] = Some n"
  by (cases "find (bad_param r) [''x1'', ''y1'', ''x2'', ''y2'', ''w'']")
    (auto simp add: find_None_iff simp del: find.simps)

text \<open>The parsers accept exactly the numerals of their kind, with the value of the numeral.\<close>

lemma dec_fold_Cons: "dec_fold n (c # cs) = dec_fold (10 * n + (byte c - 48)) cs"
  by (simp add: dec_fold_def)

lemma dec_fold_Nil: "dec_fold n [] = n"
  by (simp add: dec_fold_def)

lemma dec_fold_ge: "n \<le> dec_fold n cs"
proof (induction cs arbitrary: n)
  case Nil
  show ?case by (simp add: dec_fold_Nil)
next
  case (Cons c cs)
  have "n \<le> 10 * n + (byte c - 48)" by simp
  also have "\<dots> \<le> dec_fold (10 * n + (byte c - 48)) cs" by (rule Cons.IH)
  finally show ?case by (simp add: dec_fold_Cons)
qed

lemma dec_fold_less:
  "list_all ascii_digit cs \<Longrightarrow> dec_fold n cs < (n + 1) * 10 ^ length cs"
proof (induction cs arbitrary: n)
  case Nil
  show ?case by (simp add: dec_fold_Nil)
next
  case (Cons c cs)
  then have dig: "ascii_digit c" and r: "list_all ascii_digit cs" by simp_all
  from dig have d: "byte c - 48 \<le> 9" unfolding ascii_digit_def by arith
  have "dec_fold (10 * n + (byte c - 48)) cs < (10 * n + (byte c - 48) + 1) * 10 ^ length cs"
    using r by (rule Cons.IH)
  also have "\<dots> \<le> (10 * (n + 1)) * 10 ^ length cs"
    using d by (intro mult_right_mono) simp_all
  finally show ?case by (simp add: dec_fold_Cons algebra_simps)
qed

lemma digit_val_digit: "ascii_digit c \<Longrightarrow> digit_val c = Some (byte c - 48)"
  by (simp add: digit_val_def ascii_digit_def byte_consts)

lemma digit_val_decimal_value:
  assumes "digit_val c = Some d" "d < 10"
  shows "d = byte c - 48"
  using digit_val_decimal [OF assms] digit_val_digit [of c] assms(1) by simp

lemma parse_loop_dec:
  assumes "maxVal < 2 ^ 64"
  shows "n \<le> maxVal \<Longrightarrow>
     parse_loop 10 maxVal n cs = Inr v
     \<longleftrightarrow> list_all ascii_digit cs \<and> v = dec_fold n cs \<and> v \<le> maxVal"
proof (induction cs arbitrary: n)
  case Nil
  then show ?case by (auto simp add: dec_fold_Nil)
next
  case (Cons c cs)
  let ?d = "byte c - 48"
  let ?n1 = "10 * n + ?d"
  show ?case
  proof
    assume a: "parse_loop 10 maxVal n (c # cs) = Inr v"
    then obtain d where d: "digit_val c = Some d" "d < 10"
      and cut: "\<not> n \<ge> maxUint64 div 10 + 1"
      and wrap: "\<not> (n * 10 + d) mod 2 ^ 64 < n * 10"
      and le: "(n * 10 + d) mod 2 ^ 64 \<le> maxVal"
      and rest: "parse_loop 10 maxVal ((n * 10 + d) mod 2 ^ 64) cs = Inr v"
      by (auto simp add: Let_def not_less split: option.splits if_splits)
    from digit_val_decimal [OF d] have dig: "ascii_digit c" .
    from digit_val_decimal_value [OF d] have dv: "d = ?d" .
    have nowrap: "n * 10 + d < 2 ^ 64"
    proof (rule ccontr)
      assume "\<not> n * 10 + d < 2 ^ 64"
      then have ge: "2 ^ 64 \<le> n * 10 + d" by simp
      from cut have "n * 10 + d < 2 * 2 ^ 64" using d(2) by (simp add: maxUint64_def)
      with ge have "(n * 10 + d) mod 2 ^ 64 = n * 10 + d - 2 ^ 64"
        by (simp add: mod_if)
      with wrap d(2) ge show False by simp
    qed
    then have m: "(n * 10 + d) mod 2 ^ 64 = ?n1" by (simp add: dv mult.commute)
    from le m have le1: "?n1 \<le> maxVal" by simp
    from rest m have "parse_loop 10 maxVal ?n1 cs = Inr v" by simp
    with Cons.IH [OF le1] have "list_all ascii_digit cs \<and> v = dec_fold ?n1 cs \<and> v \<le> maxVal"
      by simp
    with dig show "list_all ascii_digit (c # cs) \<and> v = dec_fold n (c # cs) \<and> v \<le> maxVal"
      by (simp add: dec_fold_Cons)
  next
    assume a: "list_all ascii_digit (c # cs) \<and> v = dec_fold n (c # cs) \<and> v \<le> maxVal"
    then have dig: "ascii_digit c" and r: "list_all ascii_digit cs"
      and v: "v = dec_fold ?n1 cs" "v \<le> maxVal"
      by (simp_all add: dec_fold_Cons)
    from dig have d9: "?d < 10" by (auto simp add: ascii_digit_def)
    from dec_fold_ge [of ?n1 cs] v have le1: "?n1 \<le> maxVal" by simp
    with assms have lt: "?n1 < 2 ^ 64" by simp
    then have m: "(n * 10 + ?d) mod 18446744073709551616 = ?n1" by (simp add: mult.commute)
    have n0: "n * 10 \<le> ?n1" by simp
    from lt have cut: "\<not> n \<ge> maxUint64 div 10 + 1" by (simp add: maxUint64_def)
    from Cons.IH [OF le1] r v have rest: "parse_loop 10 maxVal ?n1 cs = Inr v" by simp
    show "parse_loop 10 maxVal n (c # cs) = Inr v"
      using digit_val_digit [OF dig] d9 cut le1 rest n0 by (simp add: Let_def m not_less)
  qed
qed

lemma ParseUint_32_iff: "ParseUint s 10 32 = Inr v \<longleftrightarrow> uint32_literal s \<and> v = dec_value s"
proof (cases "s = []")
  case True
  then show ?thesis by (simp add: ParseUint_def uint32_literal_def is_decimal_def)
next
  case False
  have "parse_loop 10 (2 ^ 32 - 1) 0 s = Inr v
        \<longleftrightarrow> list_all ascii_digit s \<and> v = dec_fold 0 s \<and> v \<le> 2 ^ 32 - 1"
    by (rule parse_loop_dec) simp_all
  with False show ?thesis
    by (auto simp add: ParseUint_def uint32_literal_def is_decimal_def dec_value_def)
qed

lemma ParseUint_64_iff:
  "ParseUint s 10 0 = Inr v \<longleftrightarrow> is_decimal s \<and> v = dec_value s \<and> v < 2 ^ 64"
proof (cases "s = []")
  case True
  then show ?thesis by (simp add: ParseUint_def is_decimal_def)
next
  case False
  have "parse_loop 10 (2 ^ 64 - 1) 0 s = Inr v
        \<longleftrightarrow> list_all ascii_digit s \<and> v = dec_fold 0 s \<and> v \<le> 2 ^ 64 - 1"
    by (rule parse_loop_dec) simp_all
  with False show ?thesis
    by (auto simp add: ParseUint_def is_decimal_def dec_value_def)
qed

lemma atoi_loop_dec:
  "atoi_loop (int k) cs = Inr v \<longleftrightarrow> list_all ascii_digit cs \<and> v = int (dec_fold k cs)"
proof (induction cs arbitrary: k)
  case Nil
  show ?case by (auto simp add: dec_fold_Nil)
next
  case (Cons c cs)
  let ?ch = "(byte c + 256 - byte CHR ''0'') mod 256"
  show ?case
  proof (cases "ascii_digit c")
    case True
    from True have e: "byte c + 256 - byte CHR ''0'' = (byte c - 48) + 256"
      and d9: "byte c - 48 \<le> 9"
      unfolding ascii_digit_def byte_consts by arith+
    have "?ch = ((byte c - 48) + 256) mod 256" by (simp only: e)
    also have "\<dots> = byte c - 48" using d9 by simp
    finally have ch: "?ch = byte c - 48" .
    have eq: "int k * 10 + int (byte c - 48) = int (10 * k + (byte c - 48))" by simp
    have "atoi_loop (int k) (c # cs) = atoi_loop (int k * 10 + int (byte c - 48)) cs"
      using ch d9 by (simp add: Let_def)
    also have "\<dots> = atoi_loop (int (10 * k + (byte c - 48))) cs" by (simp only: eq)
    finally have step: "atoi_loop (int k) (c # cs) = atoi_loop (int (10 * k + (byte c - 48))) cs" .
    show ?thesis
      unfolding step using True Cons.IH [of "10 * k + (byte c - 48)"]
      by (simp add: dec_fold_Cons)
  next
    case False
    have "?ch > 9"
    proof (cases "byte c < 48")
      case True
      then have "?ch = byte c + 208" by (simp add: byte_consts)
      then show ?thesis by simp
    next
      case ge: False
      with byte_less_256 [of c] have "?ch = byte c - 48" by (simp add: byte_consts mod_if)
      with False ge show ?thesis by (simp add: ascii_digit_def)
    qed
    with False show ?thesis by simp
  qed
qed

lemma sign_split:
  fixes c :: char and t :: string
  defines "s1 \<equiv> (if c = CHR ''+'' \<or> c = CHR ''-'' then t else c # t)"
  shows "is_signed_decimal (c # t) = is_decimal s1"
    and "signed_value (c # t) = (if c = CHR ''-'' then - int (dec_value s1) else int (dec_value s1))"
  by (auto simp add: s1_def is_signed_decimal_def signed_value_def)

lemma dec_value_less: "is_decimal s \<Longrightarrow> dec_value s < 10 ^ length s"
  using dec_fold_less [of s 0] by (simp add: is_decimal_def dec_value_def)

lemma ParseInt_iff: "ParseInt s 10 0 = Inr v \<longleftrightarrow> int_literal s \<and> v = signed_value s"
proof (cases s)
  case Nil
  then show ?thesis by (simp add: ParseInt_def int_literal_def is_signed_decimal_def)
next
  case (Cons c t)
  define s1 where "s1 = (if c = CHR ''+'' \<or> c = CHR ''-'' then t else c # t)"
  define un where "un = dec_value s1"
  note sp = sign_split [of c t, folded s1_def]
  have pu: "\<And>u. ParseUint s1 10 0 = Inr u \<longleftrightarrow> is_decimal s1 \<and> u = un \<and> u < 2 ^ 64"
    by (simp add: ParseUint_64_iff un_def)
  have pi: "ParseInt s 10 0 =
      (case ParseUint s1 10 0 of
         Inl ErrSyntax \<Rightarrow> Inl ErrSyntax
       | Inl ErrRange \<Rightarrow> Inl ErrRange
       | Inr u \<Rightarrow>
           if c \<noteq> CHR ''-'' \<and> u \<ge> 2 ^ 63 then Inl ErrRange
           else if c = CHR ''-'' \<and> u > 2 ^ 63 then Inl ErrRange
           else Inr (if c = CHR ''-'' then - int u else int u))"
    by (cases "c = CHR ''+''"; cases "c = CHR ''-''")
      (simp_all add: ParseInt_def Cons s1_def Let_def split: sum.splits num_error.splits)
  show ?thesis
  proof (cases "ParseUint s1 10 0")
    case (Inl e)
    then have "\<not> (is_decimal s1 \<and> un < 2 ^ 64)" using pu [of un] by auto
    moreover have "is_decimal s1 \<Longrightarrow> - (2 ^ 63) \<le> signed_value s \<Longrightarrow> signed_value s < 2 ^ 63
        \<Longrightarrow> un < 2 ^ 64"
      by (auto simp add: Cons sp un_def split: if_splits)
    ultimately have "\<not> int_literal s" by (auto simp add: int_literal_def Cons sp(1))
    with Inl show ?thesis by (cases e) (simp_all add: pi)
  next
    case (Inr u)
    with pu [of u] have d: "is_decimal s1" and u: "u = un" "u < 2 ^ 64" by simp_all
    have sv: "signed_value s = (if c = CHR ''-'' then - int u else int u)"
      by (simp add: Cons sp(2) un_def u(1))
    have il: "int_literal s \<longleftrightarrow> - (2 ^ 63) \<le> signed_value s \<and> signed_value s < 2 ^ 63"
      using d by (simp add: int_literal_def Cons sp(1))
    show ?thesis
    proof (cases "c = CHR ''-''")
      case True
      then show ?thesis using Inr by (auto simp add: pi il sv)
    next
      case False
      then show ?thesis using Inr by (auto simp add: pi il sv)
    qed
  qed
qed

lemma Atoi_iff: "Atoi s = Inr v \<longleftrightarrow> int_literal s \<and> v = signed_value s"
proof (cases "0 < length s \<and> length s < 19")
  case False
  then have "Atoi s = ParseInt s 10 0" unfolding Atoi_def by (simp only: if_False)
  then show ?thesis by (simp only: ParseInt_iff)
next
  case True
  then obtain c t where s: "s = c # t" by (cases s) auto
  define s1 where "s1 = (if c = CHR ''+'' \<or> c = CHR ''-'' then t else c # t)"
  note sp = sign_split [of c t, folded s1_def]
  have len: "length s1 \<le> 18" using True by (auto simp add: s s1_def)
  have at: "Atoi s =
      (if length s1 < 1 then Inl ErrSyntax
       else case atoi_loop 0 s1 of
              Inl e \<Rightarrow> Inl e
            | Inr n \<Rightarrow> Inr (if c = CHR ''-'' then - n else n))"
    using True
    by (cases "c = CHR ''+''"; cases "c = CHR ''-''")
      (simp_all add: Atoi_def s s1_def Let_def del: atoi_loop.simps split: sum.splits)
  have al: "\<And>n. atoi_loop 0 s1 = Inr n \<longleftrightarrow> list_all ascii_digit s1 \<and> n = int (dec_value s1)"
    using atoi_loop_dec [of 0 s1] by (simp add: dec_value_def)
  have range: "- (2 ^ 63) \<le> signed_value s \<and> signed_value s < 2 ^ 63" if d: "is_decimal s1"
  proof -
    have "dec_value s1 < 10 ^ length s1" using d by (rule dec_value_less)
    also have "(10::nat) ^ length s1 \<le> 10 ^ 18" using len by (intro power_increasing) simp_all
    finally have "dec_value s1 < 10 ^ 18" .
    then have "int (dec_value s1) < 10 ^ 18"
      by (metis of_nat_less_iff of_nat_numeral of_nat_power)
    then show ?thesis by (simp add: s sp(2))
  qed
  have il: "int_literal s \<longleftrightarrow> is_decimal s1"
    using range by (auto simp add: int_literal_def s sp(1))
  show ?thesis
  proof (cases "atoi_loop 0 s1")
    case (Inl e)
    then have "\<not> list_all ascii_digit s1" using al [of "int (dec_value s1)"] by auto
    then have "\<not> is_decimal s1" by (simp add: is_decimal_def)
    with Inl show ?thesis by (simp add: at il)
  next
    case (Inr n)
    with al [of n] have d: "list_all ascii_digit s1" and n: "n = int (dec_value s1)" by simp_all
    have "is_decimal s1 \<longleftrightarrow> \<not> length s1 < 1"
      using d by (cases s1) (simp_all add: is_decimal_def)
    moreover have "signed_value s
        = (if c = CHR ''-'' then - int (dec_value s1) else int (dec_value s1))"
      by (simp add: s sp(2))
    ultimately show ?thesis using Inr n by (auto simp add: at il)
  qed
qed

lemma bad_param_iff:
  "bad_param r name \<longleftrightarrow> unparsable r name"
proof -
  have a: "isl (Atoi s) \<longleftrightarrow> \<not> int_literal s" for s
    using Atoi_iff [of s] by (cases "Atoi s") auto
  have b: "isl (ParseUint s 10 32) \<longleftrightarrow> \<not> uint32_literal s" for s
    using ParseUint_32_iff [of s] by (cases "ParseUint s 10 32") auto
  show ?thesis by (simp add: bad_param_def unparsable_def a b)
qed

lemma bad_param_unparsable: "bad_param r = unparsable r"
  by (rule ext) (rule bad_param_iff)

lemma scale_step_good:
  "\<not> bad_param r ''w'' \<Longrightarrow> \<exists>m. scale_step env r subImg = Inr m"
  by (cases "ParseUint (Get (Query r) ''w'') 10 32")
    (auto simp add: bad_param_def scale_step_def Let_def)

lemma encode_step_status: "status (encode_step m) \<noteq> 400"
  by (simp add: encode_step_def)

lemma scaled_none_bad:
  assumes "filename_ok (Get (Query r) ''filename'')"
    and "fs (file_path saveDir (Get (Query r) ''filename'')) = Some f"
    and "\<not> stat_fails env (file_path saveDir (Get (Query r) ''filename''))"
    and "jpeg_decode env (content f) = Some img"
    and "find (bad_param r) [''x1'', ''y1'', ''x2'', ''y2'', ''w''] = None"
  shows "status (scaledHandler env saveDir fs r) \<noteq> 400"
proof -
  from assms(5) have "\<forall>n \<in> set [''x1'', ''y1'', ''x2'', ''y2'', ''w'']. \<not> bad_param r n"
    unfolding find_None_iff by blast
  then have g: "\<not> bad_param r ''x1''" "\<not> bad_param r ''y1''" "\<not> bad_param r ''x2''"
      "\<not> bad_param r ''y2''" "\<not> bad_param r ''w''"
    by simp_all
  from int_param_good [OF g(1), of 0] obtain a where a: "int_param r ''x1'' 0 = Inr a" by auto
  from int_param_good [OF g(2), of 0] obtain b where b: "int_param r ''y1'' 0 = Inr b" by auto
  from int_param_good [OF g(3), of "MaxX (bounds img)"]
  obtain c where c: "int_param r ''x2'' (MaxX (bounds img)) = Inr c" by auto
  from int_param_good [OF g(4), of "MaxY (bounds img)"]
  obtain d where d: "int_param r ''y2'' (MaxY (bounds img)) = Inr d" by auto
  have bp: "box_params r img = Inr (a, b, c, d)" by (simp add: box_params_def a b c d)
  from scale_step_good [OF g(5)]
  obtain m where m: "scale_step env r (SubImage img (Rect a b c d)) = Inr m" by blast
  have cs: "crop_scale env r img (a, b, c, d) = Inr (to_rgba m)" by (simp add: crop_scale_def m)
  from scaled_loaded [where fs = fs, OF assms(1-4)] bp cs
  have "scaledHandler env saveDir fs r = encode_step (label_step env r f (to_rgba m))" by simp
  then show ?thesis by (simp add: encode_step_status)
qed

text \<open>
  C3 (as amended): \<open>x1\<close>, \<open>y1\<close>, \<open>x2\<close>, \<open>y2\<close> are optional signed integers of
  64 bits and \<open>w\<close> is an optional unsigned integer of 32 bits. A field is unparsable
  when its value is non-empty and is not a decimal numeral of that kind: digits only,
  for the box after one optional sign, with a value from \<open>-2^63\<close> to \<open>2^63 - 1\<close>, for
  \<open>w\<close> below \<open>2^32\<close>. For a request whose file was loaded and decoded, the handler
  answers 400 with the message that names the first unparsable field in the order
  \<open>x1\<close>, \<open>y1\<close>, \<open>x2\<close>, \<open>y2\<close>, \<open>w\<close>, and with it no image; and when no field is
  unparsable the answer is not a 400.
\<close>

theorem invalid_numeric_parameter:
  assumes "filename_ok (Get (Query r) ''filename'')"
    and "fs (file_path saveDir (Get (Query r) ''filename'')) = Some f"
    and "\<not> stat_fails env (file_path saveDir (Get (Query r) ''filename''))"
    and "jpeg_decode env (content f) = Some img"
  shows "(find (unparsable r) [''x1'', ''y1'', ''x2'', ''y2'', ''w''] = Some name \<longrightarrow>
            scaledHandler env saveDir fs r
              = HTTPError 400 (''Invalid '' @ name @ '' parameter''))
         \<and> (find (unparsable r) [''x1'', ''y1'', ''x2'', ''y2'', ''w''] = None \<longrightarrow>
              status (scaledHandler env saveDir fs r) \<noteq> 400)"
  using scaled_first_bad [where fs = fs, OF assms] scaled_none_bad [where fs = fs, OF assms]
  unfolding bad_param_unparsable by blast

lemma demo_loaded:
  "Get (Query r) ''filename'' = ''test'' \<Longrightarrow>
   filename_ok (Get (Query r) ''filename'')
   \<and> demo_store (file_path ''.'' (Get (Query r) ''filename''))
       = Some \<lparr>content = ''jpeg-bytes-100x100'', mtime = 0\<rparr>
   \<and> \<not> stat_fails demo_env (file_path ''.'' (Get (Query r) ''filename''))
   \<and> jpeg_decode demo_env (content \<lparr>content = ''jpeg-bytes-100x100'', mtime = 0\<rparr>)
       = Some demo_image"
  using filename_ok_test by (simp add: demo_store_def demo_env_def)

lemma dec_value_eval:
  "dec_value ''10'' = 10" "dec_value ''4294967296'' = 4294967296"
  "dec_value ''9223372036854775808'' = 9223372036854775808"
  "dec_value ''5'' = 5" "dec_value ''4294967295'' = 4294967295"
  by (simp_all add: dec_value_def dec_fold_def byte_def)

lemma is_decimal_eval:
  "is_decimal ''10''" "is_decimal ''4294967296''" "is_decimal ''9223372036854775808''"
  "is_decimal ''5''" "is_decimal ''4294967295''" "\<not> is_decimal ''1e3''" "\<not> is_decimal ''abc''"
  by (simp_all add: is_decimal_def ascii_digit_def byte_def)

theorem invalid_numeric_parameter_witness:
  "find (unparsable (get_request [(''filename'', ''test''), (''x1'', ''10''), (''w'', ''abc'')]))
       [''x1'', ''y1'', ''x2'', ''y2'', ''w''] = Some ''w''
   \<and> scaledHandler demo_env ''.'' demo_store
        (get_request [(''filename'', ''test''), (''x1'', ''10''), (''w'', ''abc'')])
       = HTTPError 400 ''Invalid w parameter''
   \<and> find (unparsable (get_request [(''filename'', ''test''), (''y1'', ''1e3''),
          (''w'', ''4294967296'')])) [''x1'', ''y1'', ''x2'', ''y2'', ''w''] = Some ''y1''
   \<and> scaledHandler demo_env ''.'' demo_store
        (get_request [(''filename'', ''test''), (''y1'', ''1e3''), (''w'', ''4294967296'')])
       = HTTPError 400 ''Invalid y1 parameter''
   \<and> find (unparsable (get_request [(''filename'', ''test''), (''w'', ''4294967296'')]))
       [''x1'', ''y1'', ''x2'', ''y2'', ''w''] = Some ''w''
   \<and> scaledHandler demo_env ''.'' demo_store
        (get_request [(''filename'', ''test''), (''w'', ''4294967296'')])
       = HTTPError 400 ''Invalid w parameter''
   \<and> find (unparsable (get_request [(''filename'', ''test''),
          (''x2'', ''9223372036854775808'')])) [''x1'', ''y1'', ''x2'', ''y2'', ''w''] = Some ''x2''
   \<and> scaledHandler demo_env ''.'' demo_store
        (get_request [(''filename'', ''test''), (''x2'', ''9223372036854775808'')])
       = HTTPError 400 ''Invalid x2 parameter''
   \<and> find (unparsable (get_request [(''filename'', ''test''), (''x1'', ''-5''),
          (''w'', ''4294967295'')])) [''x1'', ''y1'', ''x2'', ''y2'', ''w''] = None
   \<and> status (scaledHandler demo_env ''.'' demo_store
        (get_request [(''filename'', ''test''), (''x1'', ''-5''), (''w'', ''4294967295'')]))
       \<noteq> 400"
proof -
  let ?r1 = "get_request [(''filename'', ''test''), (''x1'', ''10''), (''w'', ''abc'')]"
  let ?r2 = "get_request [(''filename'', ''test''), (''y1'', ''1e3''), (''w'', ''4294967296'')]"
  let ?r3 = "get_request [(''filename'', ''test''), (''w'', ''4294967296'')]"
  let ?r4 = "get_request [(''filename'', ''test''), (''x2'', ''9223372036854775808'')]"
  let ?r5 = "get_request [(''filename'', ''test''), (''x1'', ''-5''), (''w'', ''4294967295'')]"
  let ?fields = "[''x1'', ''y1'', ''x2'', ''y2'', ''w'']"
  note ev = unparsable_def get_request_def Get_def int_literal_def uint32_literal_def
    is_signed_decimal_def signed_value_def dec_value_eval is_decimal_eval
  have f: "Get (Query ?r1) ''filename'' = ''test''" "Get (Query ?r2) ''filename'' = ''test''"
      "Get (Query ?r3) ''filename'' = ''test''" "Get (Query ?r4) ''filename'' = ''test''"
      "Get (Query ?r5) ''filename'' = ''test''"
    by (simp_all add: get_request_def Get_def)
  have u1: "find (unparsable ?r1) ?fields = Some ''w''" by (simp add: ev)
  have u2: "find (unparsable ?r2) ?fields = Some ''y1''" by (simp add: ev)
  have u3: "find (unparsable ?r3) ?fields = Some ''w''" by (simp add: ev)
  have u4: "find (unparsable ?r4) ?fields = Some ''x2''" by (simp add: ev)
  have u5: "find (unparsable ?r5) ?fields = None" by (simp add: ev)
  note l1 = demo_loaded [OF f(1)] and l2 = demo_loaded [OF f(2)] and l3 = demo_loaded [OF f(3)]
    and l4 = demo_loaded [OF f(4)] and l5 = demo_loaded [OF f(5)]
  note t1 = invalid_numeric_parameter [where fs = demo_store and name = "''w''",
      OF l1 [THEN conjunct1] l1 [THEN conjunct2, THEN conjunct1]
         l1 [THEN conjunct2, THEN conjunct2, THEN conjunct1]
         l1 [THEN conjunct2, THEN conjunct2, THEN conjunct2]]
  note t2 = invalid_numeric_parameter [where fs = demo_store and name = "''y1''",
      OF l2 [THEN conjunct1] l2 [THEN conjunct2, THEN conjunct1]
         l2 [THEN conjunct2, THEN conjunct2, THEN conjunct1]
         l2 [THEN conjunct2, THEN conjunct2, THEN conjunct2]]
  note t3 = invalid_numeric_parameter [where fs = demo_store and name = "''w''",
      OF l3 [THEN conjunct1] l3 [THEN conjunct2, THEN conjunct1]
         l3 [THEN conjunct2, THEN conjunct2, THEN conjunct1]
         l3 [THEN conjunct2, THEN conjunct2, THEN conjunct2]]
  note t4 = invalid_numeric_parameter [where fs = demo_store and name = "''x2''",
      OF l4 [THEN conjunct1] l4 [THEN conjunct2, THEN conjunct1]
         l4 [THEN conjunct2, THEN conjunct2, THEN conjunct1]
         l4 [THEN conjunct2, THEN conjunct2, THEN conjunct2]]
  note t5 = invalid_numeric_parameter [where fs = demo_store and name = "''w''",
      OF l5 [THEN conjunct1] l5 [THEN conjunct2, THEN conjunct1]
         l5 [THEN conjunct2, THEN conjunct2, THEN conjunct1]
         l5 [THEN conjunct2, THEN conjunct2, THEN conjunct2]]
  from t1 u1 have c1: "scaledHandler demo_env ''.'' demo_store ?r1
      = HTTPError 400 (''Invalid '' @ ''w'' @ '' parameter'')" by blast
  from t2 u2 have c2: "scaledHandler demo_env ''.'' demo_store ?r2
      = HTTPError 400 (''Invalid '' @ ''y1'' @ '' parameter'')" by blast
  from t3 u3 have c3: "scaledHandler demo_env ''.'' demo_store ?r3
      = HTTPError 400 (''Invalid '' @ ''w'' @ '' parameter'')" by blast
  from t4 u4 have c4: "scaledHandler demo_env ''.'' demo_store ?r4
      = HTTPError 400 (''Invalid '' @ ''x2'' @ '' parameter'')" by blast
  from t5 u5 have c5: "status (scaledHandler demo_env ''.'' demo_store ?r5) \<noteq> 400" by blast
  from u1 c1 u2 c2 u3 c3 u4 c4 u5 c5 show ?thesis by simp
qed

text \<open>
  C3 as stated fails: \<open>x1=-5\<close> is not a non-negative integer, yet \<open>Atoi\<close> accepts
  it and the handler answers with an image.
\<close>

theorem negative_coordinate_accepted:
  "\<not> is_decimal ''-5''
   \<and> Get (Query (get_request [(''filename'', ''test''), (''x1'', ''-5''), (''nolabel'', ''1'')]))
        ''x1'' = ''-5''
   \<and> scaledHandler demo_env ''.'' demo_store
        (get_request [(''filename'', ''test''), (''x1'', ''-5''), (''nolabel'', ''1'')])
       = ImageJPEG (to_rgba (SubImage demo_image (Rect (- 5) 0 100 100)))"
proof -
  let ?r = "get_request [(''filename'', ''test''), (''x1'', ''-5''), (''nolabel'', ''1'')]"
  let ?m = "to_rgba (SubImage demo_image (Rect (- 5) 0 100 100))"
  have a: "\<not> is_decimal ''-5''" by (simp add: is_decimal_def ascii_digit_def byte_def)
  have g: "Get (Query ?r) ''x1'' = ''-5''" and fn: "Get (Query ?r) ''filename'' = ''test''"
    by (simp_all add: get_request_def Get_def)
  have b: "box_params ?r demo_image = Inr (- 5, 0, 100, 100)"
    by (simp add: box_params_def int_param_def get_request_def Get_def Atoi_def byte_def
        demo_image_def Rect_def)
  have c: "crop_scale demo_env ?r demo_image (- 5, 0, 100, 100) = Inr ?m"
    by (simp add: crop_scale_def scale_step_def get_request_def Get_def)
  have l: "label_step demo_env ?r \<lparr>content = ''jpeg-bytes-100x100'', mtime = 0\<rparr> ?m = ?m"
    by (simp add: label_step_def get_request_def Get_def)
  have e: "encode_step ?m = ImageJPEG ?m"
    by (simp add: encode_step_def bounds_to_rgba SubImage_def Intersect_def Rect_def Empty_def
        demo_image_def Dx_def Dy_def Let_def)
  from demo_load [OF fn] b c l e a g show ?thesis by simp
qed

section \<open>Cropping\<close>

lemma if_less_max: "(if a < b then b else a) = max a (b::int)"
  by (simp add: max_def)

lemma if_greater_min: "(if a > b then b else a) = min a (b::int)"
  by (simp add: min_def)

lemma if_greater_max: "(if a > b then a else b) = max a (b::int)"
  by (simp add: max_def)

lemma Rect_min_max:
  "Rect x0 y0 x1 y1 = \<lparr>MinX = min x0 x1, MinY = min y0 y1, MaxX = max x0 x1, MaxY = max y0 y1\<rparr>"
  unfolding Rect_def if_greater_min if_greater_max by (simp add: min.commute)

lemma Intersect_Rect:
  "Intersect (Rect x1 y1 x2 y2) b =
     (if Empty (clip_box b x1 y1 x2 y2) then ZR else clip_box b x1 y1 x2 y2)"
  unfolding Rect_min_max Intersect_def Let_def clip_box_def
  by (simp only: rectangle.simps if_less_max if_greater_min)

lemma Empty_ZR: "Empty ZR"
  by (simp add: Empty_def ZR_def)

lemma SubImage_clip:
  "SubImage img (Rect x1 y1 x2 y2) =
     (if Empty (clip_box (bounds img) x1 y1 x2 y2) then empty_image
      else \<lparr>bounds = clip_box (bounds img) x1 y1 x2 y2, pix = pix img\<rparr>)"
  by (simp add: SubImage_def Intersect_Rect Empty_ZR empty_image_def Let_def)

lemma Resize_no_pixels:
  "Dx (bounds img) \<le> 0 \<or> Dy (bounds img) \<le> 0 \<Longrightarrow> Resize env width height img = img"
  by (auto simp add: Resize_def Let_def split: prod.splits)

lemma scale_step_empty:
  "\<not> bad_param r ''w'' \<Longrightarrow> scale_step env r empty_image = Inr empty_image"
proof -
  assume a: "\<not> bad_param r ''w''"
  have e: "Dx (bounds empty_image) \<le> 0 \<or> Dy (bounds empty_image) \<le> 0"
    by (simp add: empty_image_def ZR_def Dx_def)
  show ?thesis
  proof (cases "Get (Query r) ''w'' = []")
    case True
    then show ?thesis by (simp add: scale_step_def)
  next
    case False
    with a obtain width where "ParseUint (Get (Query r) ''w'') 10 32 = Inr width"
      by (cases "ParseUint (Get (Query r) ''w'') 10 32") (auto simp add: bad_param_def)
    with False show ?thesis
      by (simp add: scale_step_def Resize_no_pixels [OF e])
  qed
qed

lemma to_rgba_empty: "to_rgba empty_image = empty_image"
  by (simp add: to_rgba_def NewRGBA_def Draw_def empty_image_def Intersect_def Empty_ZR Let_def
      Empty_def ZR_def Add_def)

lemma not_In_ZR: "\<not> In px py ZR"
  by (auto simp add: In_def ZR_def)

lemma label_step_empty: "label_step env r f empty_image = empty_image"
  by (simp add: label_step_def drawText_def empty_image_def not_In_ZR)

lemma encode_step_empty: "encode_step empty_image = ImageJPEG empty_image"
  by (simp add: encode_step_def empty_image_def ZR_def Dx_def Dy_def)

lemma degenerate_clip: "x1 = x2 \<or> y1 = y2 \<Longrightarrow> Empty (clip_box b x1 y1 x2 y2)"
  by (auto simp add: clip_box_def Empty_def)

text \<open>
  C2 (as amended): for a request whose file was loaded and decoded and whose parameters
  parse, a crop box of zero width or zero height is no error: the crop is the raster
  without pixels, scaling and labelling leave it as it is, and the handler answers 200
  with the encoding of that 0 by 0 raster.
\<close>

theorem degenerate_box_renders_empty:
  assumes "filename_ok (Get (Query r) ''filename'')"
    and "fs (file_path saveDir (Get (Query r) ''filename'')) = Some f"
    and "\<not> stat_fails env (file_path saveDir (Get (Query r) ''filename''))"
    and "jpeg_decode env (content f) = Some img"
    and "box_params r img = Inr (x1, y1, x2, y2)"
    and "x1 = x2 \<or> y1 = y2"
    and "\<not> bad_param r ''w''"
  shows "scaledHandler env saveDir fs r = ImageJPEG \<lparr>bounds = ZR, pix = no_pixels\<rparr>"
proof -
  have "SubImage img (Rect x1 y1 x2 y2) = empty_image"
    using degenerate_clip [OF assms(6)] by (simp add: SubImage_clip)
  then have "crop_scale env r img (x1, y1, x2, y2) = Inr empty_image"
    by (simp add: crop_scale_def scale_step_empty [OF assms(7)] to_rgba_empty)
  then have "scaledHandler env saveDir fs r = ImageJPEG empty_image"
    by (simp add: scaled_loaded [where fs = fs, OF assms(1-4)] assms(5) label_step_empty
        encode_step_empty)
  then show ?thesis by (simp add: empty_image_def)
qed

lemma clip_again:
  "(A::int) = max a l \<Longrightarrow> B = min b u \<Longrightarrow> A < B \<Longrightarrow>
   max (min A B) l = A \<and> min (max A B) u = B"
  by simp

lemma clip_box_idem:
  assumes "\<not> Empty (clip_box b x1 y1 x2 y2)"
  shows "clip_box b (MinX (clip_box b x1 y1 x2 y2)) (MinY (clip_box b x1 y1 x2 y2))
           (MaxX (clip_box b x1 y1 x2 y2)) (MaxY (clip_box b x1 y1 x2 y2))
         = clip_box b x1 y1 x2 y2"
proof -
  let ?A = "max (min x1 x2) (MinX b)" and ?B = "min (max x1 x2) (MaxX b)"
  let ?C = "max (min y1 y2) (MinY b)" and ?D = "min (max y1 y2) (MaxY b)"
  from assms have "?A < ?B" and "?C < ?D"
    by (simp_all add: Empty_def clip_box_def not_le)
  then have "max (min ?A ?B) (MinX b) = ?A \<and> min (max ?A ?B) (MaxX b) = ?B"
    and "max (min ?C ?D) (MinY b) = ?C \<and> min (max ?C ?D) (MaxY b) = ?D"
    by (simp_all add: clip_again)
  then show ?thesis by (simp add: clip_box_def)
qed

lemma clip_span: "(max a l :: int) < min b u \<Longrightarrow> min b u - max a l \<le> u - l"
  by simp

lemma clip_box_within:
  assumes "\<not> Empty (clip_box b x1 y1 x2 y2)"
  shows "Dx (clip_box b x1 y1 x2 y2) \<le> Dx b \<and> Dy (clip_box b x1 y1 x2 y2) \<le> Dy b"
proof -
  from assms have "max (min x1 x2) (MinX b) < min (max x1 x2) (MaxX b)"
    and "max (min y1 y2) (MinY b) < min (max y1 y2) (MaxY b)"
    by (simp_all add: Empty_def clip_box_def not_le)
  then show ?thesis
    by (simp add: Dx_def Dy_def clip_box_def clip_span)
qed

lemma SubImage_within:
  assumes "Dx (bounds img) < 2 ^ 16" "Dy (bounds img) < 2 ^ 16"
  shows "Dx (bounds (SubImage img (Rect x1 y1 x2 y2))) < 2 ^ 16
         \<and> Dy (bounds (SubImage img (Rect x1 y1 x2 y2))) < 2 ^ 16"
proof (cases "Empty (clip_box (bounds img) x1 y1 x2 y2)")
  case True
  then show ?thesis by (simp add: SubImage_clip empty_image_def ZR_def Dx_def Dy_def)
next
  case False
  from clip_box_within [OF False] assms False show ?thesis by (simp add: SubImage_clip)
qed

text \<open>
  The rectangle of the crop: the crop never fails. Whatever the four numbers of the box
  are (corners in the wrong order, a box partly or wholly outside the image), the
  cropped raster is the image restricted to the box with its corners put in order and
  clipped to the image, or the raster without pixels when nothing is left; the crop of
  the clipped box is the same; the response is computed from that raster by the later
  stages, and without a \<open>w\<close> parameter it is an image.
\<close>

theorem crop_clips_to_image:
  assumes "filename_ok (Get (Query r) ''filename'')"
    and "fs (file_path saveDir (Get (Query r) ''filename'')) = Some f"
    and "\<not> stat_fails env (file_path saveDir (Get (Query r) ''filename''))"
    and "jpeg_decode env (content f) = Some img"
    and "box_params r img = Inr (x1, y1, x2, y2)"
  shows "(let c = clip_box (bounds img) x1 y1 x2 y2 in
          SubImage img (Rect x1 y1 x2 y2)
            = (if Empty c then \<lparr>bounds = ZR, pix = no_pixels\<rparr> else \<lparr>bounds = c, pix = pix img\<rparr>)
          \<and> (\<not> Empty c \<longrightarrow>
                crop_scale env r img (x1, y1, x2, y2)
                  = crop_scale env r img (MinX c, MinY c, MaxX c, MaxY c)))
         \<and> scaledHandler env saveDir fs r
             = (case scale_step env r (SubImage img (Rect x1 y1 x2 y2)) of
                  Inl e \<Rightarrow> e
                | Inr s \<Rightarrow> encode_step (label_step env r f (to_rgba s)))
         \<and> (Get (Query r) ''w'' = [] \<and> Dx (bounds img) < 2 ^ 16 \<and> Dy (bounds img) < 2 ^ 16
              \<longrightarrow> scaledHandler env saveDir fs r
                    = ImageJPEG (label_step env r f (to_rgba (SubImage img (Rect x1 y1 x2 y2)))))"
proof -
  let ?c = "clip_box (bounds img) x1 y1 x2 y2"
  let ?s = "SubImage img (Rect x1 y1 x2 y2)"
  have 1: "?s = (if Empty ?c then \<lparr>bounds = ZR, pix = no_pixels\<rparr> else \<lparr>bounds = ?c, pix = pix img\<rparr>)"
    by (simp add: SubImage_clip empty_image_def)
  have 2: "crop_scale env r img (x1, y1, x2, y2)
             = crop_scale env r img (MinX ?c, MinY ?c, MaxX ?c, MaxY ?c)" if ne: "\<not> Empty ?c"
  proof -
    from ne have "clip_box (bounds img) (MinX ?c) (MinY ?c) (MaxX ?c) (MaxY ?c) = ?c"
      by (rule clip_box_idem)
    then have "SubImage img (Rect (MinX ?c) (MinY ?c) (MaxX ?c) (MaxY ?c)) = ?s"
      by (simp add: SubImage_clip)
    then show ?thesis by (simp add: crop_scale_def)
  qed
  have 3: "scaledHandler env saveDir fs r
             = (case scale_step env r ?s of
                  Inl e \<Rightarrow> e
                | Inr s \<Rightarrow> encode_step (label_step env r f (to_rgba s)))"
    by (simp add: scaled_loaded [where fs = fs, OF assms(1-4)] assms(5) crop_scale_def
        split: sum.splits)
  have 4: "scaledHandler env saveDir fs r = ImageJPEG (label_step env r f (to_rgba ?s))"
    if w: "Get (Query r) ''w'' = []" and d: "Dx (bounds img) < 2 ^ 16" "Dy (bounds img) < 2 ^ 16"
  proof -
    have "bounds (label_step env r f (to_rgba ?s)) = bounds ?s"
      by (simp add: label_step_def drawText_def bounds_to_rgba)
    moreover have "Dx (bounds ?s) < 2 ^ 16 \<and> Dy (bounds ?s) < 2 ^ 16"
      using d by (rule SubImage_within)
    ultimately have "encode_step (label_step env r f (to_rgba ?s))
        = ImageJPEG (label_step env r f (to_rgba ?s))"
      by (simp add: encode_step_def)
    with w show ?thesis by (simp add: 3 scale_step_def)
  qed
  from 1 2 3 4 show ?thesis by (simp add: Let_def)
qed

theorem degenerate_box_renders_empty_witness:
  "box_params (get_request [(''filename'', ''test''), (''y1'', ''7''), (''y2'', ''7''), (''w'', ''50'')])
       demo_image = Inr (0, 7, 100, 7)
   \<and> \<not> bad_param (get_request [(''filename'', ''test''), (''y1'', ''7''), (''y2'', ''7''),
                                 (''w'', ''50'')]) ''w''
   \<and> scaledHandler demo_env ''.'' demo_store
        (get_request [(''filename'', ''test''), (''y1'', ''7''), (''y2'', ''7''), (''w'', ''50'')])
       = ImageJPEG \<lparr>bounds = ZR, pix = no_pixels\<rparr>"
proof -
  let ?r = "get_request [(''filename'', ''test''), (''y1'', ''7''), (''y2'', ''7''), (''w'', ''50'')]"
  have fn: "Get (Query ?r) ''filename'' = ''test''" by (simp add: get_request_def Get_def)
  have b: "box_params ?r demo_image = Inr (0, 7, 100, 7)"
    by (simp add: box_params_def int_param_def get_request_def Get_def Atoi_def byte_def
        demo_image_def Rect_def)
  have p: "ParseUint ''50'' 10 32 = Inr 50"
    by (simp add: ParseUint_def digit_val_def byte_def maxUint64_def)
  have w: "\<not> bad_param ?r ''w''"
    by (simp add: bad_param_def get_request_def Get_def p)
  have d: "(0::int) = 100 \<or> (7::int) = 7" by simp
  note l = demo_loaded [OF fn]
  from degenerate_box_renders_empty [where fs = demo_store,
      OF l [THEN conjunct1] l [THEN conjunct2, THEN conjunct1]
         l [THEN conjunct2, THEN conjunct2, THEN conjunct1]
         l [THEN conjunct2, THEN conjunct2, THEN conjunct2] b d w] b w
  show ?thesis by simp
qed

text \<open>
  C2 as stated fails: with \<open>x1=5\<close> and \<open>x2=5\<close> the box has width zero, and the
  handler answers 200 with a raster of 0 by 0 pixels.
\<close>

theorem zero_width_box_gives_image:
  "box_params (get_request [(''filename'', ''test''), (''x1'', ''5''), (''x2'', ''5'')]) demo_image
       = Inr (5, 0, 5, 100)
   \<and> status (scaledHandler demo_env ''.'' demo_store
        (get_request [(''filename'', ''test''), (''x1'', ''5''), (''x2'', ''5'')])) = 200
   \<and> body_bounds (scaledHandler demo_env ''.'' demo_store
        (get_request [(''filename'', ''test''), (''x1'', ''5''), (''x2'', ''5'')]))
       = Some \<lparr>MinX = 0, MinY = 0, MaxX = 0, MaxY = 0\<rparr>"
proof -
  let ?r = "get_request [(''filename'', ''test''), (''x1'', ''5''), (''x2'', ''5'')]"
  let ?f = "\<lparr>content = ''jpeg-bytes-100x100'', mtime = 0\<rparr>"
  have fn: "Get (Query ?r) ''filename'' = ''test''" by (simp add: get_request_def Get_def)
  have b: "box_params ?r demo_image = Inr (5, 0, 5, 100)"
    by (simp add: box_params_def int_param_def get_request_def Get_def Atoi_def byte_def
        demo_image_def Rect_def)
  have s: "SubImage demo_image (Rect 5 0 5 100) = empty_image"
    by (simp add: SubImage_clip degenerate_clip)
  have c: "crop_scale demo_env ?r demo_image (5, 0, 5, 100) = Inr empty_image"
    by (simp add: crop_scale_def s scale_step_def get_request_def Get_def to_rgba_empty)
  have "scaledHandler demo_env ''.'' demo_store ?r = ImageJPEG empty_image"
    by (simp add: demo_load [OF fn] b c label_step_empty encode_step_empty)
  with b show ?thesis by (simp add: empty_image_def ZR_def)
qed

theorem crop_clips_to_image_witness:
  "box_params (get_request [(''filename'', ''test''), (''x1'', ''150''), (''y1'', ''-20''),
                            (''x2'', ''50''), (''y2'', ''30'')]) demo_image
       = Inr (150, - 20, 50, 30)
   \<and> SubImage demo_image (Rect 150 (- 20) 50 30)
       = \<lparr>bounds = \<lparr>MinX = 50, MinY = 0, MaxX = 100, MaxY = 30\<rparr>, pix = pix demo_image\<rparr>
   \<and> body_bounds (scaledHandler demo_env ''.'' demo_store
        (get_request [(''filename'', ''test''), (''x1'', ''150''), (''y1'', ''-20''),
                      (''x2'', ''50''), (''y2'', ''30'')]))
       = Some \<lparr>MinX = 50, MinY = 0, MaxX = 100, MaxY = 30\<rparr>"
proof -
  let ?r = "get_request [(''filename'', ''test''), (''x1'', ''150''), (''y1'', ''-20''),
                         (''x2'', ''50''), (''y2'', ''30'')]"
  let ?f = "\<lparr>content = ''jpeg-bytes-100x100'', mtime = 0\<rparr>"
  have fn: "Get (Query ?r) ''filename'' = ''test''" and w: "Get (Query ?r) ''w'' = []"
    by (simp_all add: get_request_def Get_def)
  have b: "box_params ?r demo_image = Inr (150, - 20, 50, 30)"
    by (simp add: box_params_def int_param_def get_request_def Get_def Atoi_def byte_def)
  have c: "clip_box (bounds demo_image) 150 (- 20) 50 30
             = \<lparr>MinX = 50, MinY = 0, MaxX = 100, MaxY = 30\<rparr>"
    by (simp add: clip_box_def demo_image_def Rect_def)
  have e: "\<not> Empty \<lparr>MinX = 50, MinY = 0, MaxX = 100, MaxY = 30\<rparr>" by (simp add: Empty_def)
  have d: "Dx (bounds demo_image) < 2 ^ 16" "Dy (bounds demo_image) < 2 ^ 16"
    by (simp_all add: demo_image_def Rect_def Dx_def Dy_def)
  note l = demo_loaded [OF fn]
  note t = crop_clips_to_image [where fs = demo_store and env = demo_env,
      OF l [THEN conjunct1] l [THEN conjunct2, THEN conjunct1]
         l [THEN conjunct2, THEN conjunct2, THEN conjunct1]
         l [THEN conjunct2, THEN conjunct2, THEN conjunct2] b]
  from t c e have s: "SubImage demo_image (Rect 150 (- 20) 50 30)
       = \<lparr>bounds = \<lparr>MinX = 50, MinY = 0, MaxX = 100, MaxY = 30\<rparr>, pix = pix demo_image\<rparr>"
    by (simp add: Let_def)
  from t w d have "scaledHandler demo_env ''.'' demo_store ?r
      = ImageJPEG (label_step demo_env ?r ?f (to_rgba (SubImage demo_image (Rect 150 (- 20) 50 30))))"
    by blast
  then have "body_bounds (scaledHandler demo_env ''.'' demo_store ?r)
      = Some (bounds (SubImage demo_image (Rect 150 (- 20) 50 30)))"
    by (simp add: label_step_def drawText_def bounds_to_rgba)
  with b s show ?thesis by simp
qed

subsection \<open>The copy of the cropped raster\<close>

text \<open>
  The copy into the new raster reads the source from the point (0, 0): the pixel of the
  copy at \<open>(x, y)\<close> is the pixel of the source at \<open>(x, y)\<close> less the upper left
  corner of the bounds, where that point lies in the bounds, and is empty elsewhere. The
  copy is exact when the bounds start at the origin, as those of a resized raster do.
\<close>

lemma In_Intersect: "In x y (Intersect r s) \<longleftrightarrow> In x y r \<and> In x y s"
  by (auto simp add: Intersect_def Let_def In_def Empty_def ZR_def)

lemma In_Add: "In x y (Add r px py) \<longleftrightarrow> In (x - px) (y - py) r"
  by (auto simp add: In_def Add_def)

lemma In_not_Empty: "In x y r \<Longrightarrow> \<not> Empty r"
  by (auto simp add: In_def Empty_def)

lemma to_rgba_pixels:
  "pix (to_rgba s) x y =
     (if In x y (bounds s) \<and> In (x - MinX (bounds s)) (y - MinY (bounds s)) (bounds s)
      then pix s (x - MinX (bounds s)) (y - MinY (bounds s))
      else RGBA 0 0 0 0)"
proof -
  let ?b = "bounds s"
  let ?r2 = "Intersect (Intersect ?b ?b) (Add ?b (MinX ?b - 0) (MinY ?b - 0))"
  have i: "In x y ?r2 \<longleftrightarrow> In x y ?b \<and> In (x - MinX ?b) (y - MinY ?b) ?b"
    by (simp add: In_Intersect In_Add)
  show ?thesis
  proof (cases "Empty ?r2")
    case True
    with In_not_Empty [of x y ?r2] have "\<not> In x y ?r2" by blast
    with i True show ?thesis
      by (auto simp add: to_rgba_def Draw_def NewRGBA_def Let_def no_pixels_def)
  next
    case False
    with i show ?thesis
      by (simp add: to_rgba_def Draw_def NewRGBA_def Let_def no_pixels_def)
  qed
qed

lemma to_rgba_origin:
  "MinX (bounds s) = 0 \<Longrightarrow> MinY (bounds s) = 0 \<Longrightarrow> In x y (bounds s) \<Longrightarrow>
   pix (to_rgba s) x y = pix s x y"
  by (simp add: to_rgba_pixels)



section \<open>Rounding to float64\<close>


















section \<open>Scaling\<close>

















section \<open>The label on the response\<close>

lemma scaled_labelled:
  assumes "filename_ok (Get (Query r) ''filename'')"
    and "fs (file_path saveDir (Get (Query r) ''filename'')) = Some f"
    and "\<not> stat_fails env (file_path saveDir (Get (Query r) ''filename''))"
    and "jpeg_decode env (content f) = Some img"
    and "box_params r img = Inr box"
    and "crop_scale env r img box = Inr rgbaImg"
    and "Dx (bounds rgbaImg) < 2 ^ 16" "Dy (bounds rgbaImg) < 2 ^ 16"
    and "Get (Query r) ''nolabel'' = []"
  shows "scaledHandler env saveDir fs r
         = ImageJPEG (drawText env rgbaImg (label_text env r f) 10 20
                        (label_color (Get (Query r) ''color'')))"
proof -
  have "bounds (drawText env rgbaImg (label_text env r f) 10 20
                 (label_color (Get (Query r) ''color''))) = bounds rgbaImg"
    by (simp add: drawText_def)
  with assms(7,8) have "encode_step (drawText env rgbaImg (label_text env r f) 10 20
                 (label_color (Get (Query r) ''color'')))
      = ImageJPEG (drawText env rgbaImg (label_text env r f) 10 20
                 (label_color (Get (Query r) ''color'')))"
    by (simp add: encode_step_def)
  then show ?thesis
    by (simp add: scaled_loaded [where fs = fs, OF assms(1-4)] assms(5,6,9) label_step_def)
qed

lemma labelled_image:
  assumes "h = ImageJPEG (drawText env rgbaImg text x y col)"
  shows "\<exists>m. h = ImageJPEG m \<and> bounds m = bounds rgbaImg
           \<and> (\<forall>px py. pix m px py
                 = (if In px py (bounds rgbaImg) \<and> glyphs env text x y px py then col
                    else pix rgbaImg px py))"
  using assms by (simp add: drawText_def)

text \<open>
  C7: a \<open>color\<close> value that does not parse as a hexadecimal number (such as
  \<open>zzzzzz\<close>) is no error: the handler answers exactly as it does for
  \<open>color=FFFFFF\<close>, and when the request passes the stages before the label and the
  label is not switched off, the response is the image whose pixels under the glyphs of
  the label are opaque white and whose other pixels are those of the cropped and scaled
  raster. With \<open>color=FF0000\<close> the response is the image whose pixels under the
  glyphs are \<open>(255, 0, 0)\<close> at full opacity.
\<close>

theorem label_color_fallback:
  "(ParseUint (Get (Query r) ''color'') 16 32 = Inl e \<longrightarrow>
      scaledHandler env saveDir fs r
        = scaledHandler env saveDir fs (r\<lparr>Query := (''color'', ''FFFFFF'') # Query r\<rparr>)
      \<and> (filename_ok (Get (Query r) ''filename'')
           \<and> fs (file_path saveDir (Get (Query r) ''filename'')) = Some f
           \<and> \<not> stat_fails env (file_path saveDir (Get (Query r) ''filename''))
           \<and> jpeg_decode env (content f) = Some img
           \<and> box_params r img = Inr box \<and> crop_scale env r img box = Inr rgbaImg
           \<and> Dx (bounds rgbaImg) < 2 ^ 16 \<and> Dy (bounds rgbaImg) < 2 ^ 16
           \<and> Get (Query r) ''nolabel'' = []
          \<longrightarrow> (\<exists>m. scaledHandler env saveDir fs r = ImageJPEG m
                   \<and> bounds m = bounds rgbaImg
                   \<and> (\<forall>px py. pix m px py
                         = (if In px py (bounds rgbaImg)
                               \<and> glyphs env (label_text env r f) 10 20 px py
                            then RGBA 255 255 255 255 else pix rgbaImg px py)))))
   \<and> ParseUint ''zzzzzz'' 16 32 = Inl ErrSyntax
   \<and> (Get (Query r) ''color'' = ''FF0000''
        \<and> filename_ok (Get (Query r) ''filename'')
        \<and> fs (file_path saveDir (Get (Query r) ''filename'')) = Some f
        \<and> \<not> stat_fails env (file_path saveDir (Get (Query r) ''filename''))
        \<and> jpeg_decode env (content f) = Some img
        \<and> box_params r img = Inr box \<and> crop_scale env r img box = Inr rgbaImg
        \<and> Dx (bounds rgbaImg) < 2 ^ 16 \<and> Dy (bounds rgbaImg) < 2 ^ 16
        \<and> Get (Query r) ''nolabel'' = []
       \<longrightarrow> (\<exists>m. scaledHandler env saveDir fs r = ImageJPEG m
                \<and> bounds m = bounds rgbaImg
                \<and> (\<forall>px py. pix m px py
                      = (if In px py (bounds rgbaImg)
                            \<and> glyphs env (label_text env r f) 10 20 px py
                         then RGBA 255 0 0 255 else pix rgbaImg px py))))"
proof (intro conjI impI)
  assume p: "ParseUint (Get (Query r) ''color'') 16 32 = Inl e"
  from label_color_failed [OF p] have w: "label_color (Get (Query r) ''color'') = RGBA 255 255 255 255" .
  from scaled_color_white [OF w]
  show "scaledHandler env saveDir fs r
        = scaledHandler env saveDir fs (r\<lparr>Query := (''color'', ''FFFFFF'') # Query r\<rparr>)" .
  assume a: "filename_ok (Get (Query r) ''filename'')
           \<and> fs (file_path saveDir (Get (Query r) ''filename'')) = Some f
           \<and> \<not> stat_fails env (file_path saveDir (Get (Query r) ''filename''))
           \<and> jpeg_decode env (content f) = Some img
           \<and> box_params r img = Inr box \<and> crop_scale env r img box = Inr rgbaImg
           \<and> Dx (bounds rgbaImg) < 2 ^ 16 \<and> Dy (bounds rgbaImg) < 2 ^ 16
           \<and> Get (Query r) ''nolabel'' = []"
  then have "scaledHandler env saveDir fs r
      = ImageJPEG (drawText env rgbaImg (label_text env r f) 10 20 (RGBA 255 255 255 255))"
    using scaled_labelled [where fs = fs and r = r and env = env and saveDir = saveDir
        and f = f and img = img and box = box and rgbaImg = rgbaImg] w by simp
  then show "\<exists>m. scaledHandler env saveDir fs r = ImageJPEG m
                   \<and> bounds m = bounds rgbaImg
                   \<and> (\<forall>px py. pix m px py
                         = (if In px py (bounds rgbaImg)
                               \<and> glyphs env (label_text env r f) 10 20 px py
                            then RGBA 255 255 255 255 else pix rgbaImg px py))"
    by (rule labelled_image)
next
  show "ParseUint ''zzzzzz'' 16 32 = Inl ErrSyntax" by (rule ParseUint_zzzzzz)
next
  assume a: "Get (Query r) ''color'' = ''FF0000''
        \<and> filename_ok (Get (Query r) ''filename'')
        \<and> fs (file_path saveDir (Get (Query r) ''filename'')) = Some f
        \<and> \<not> stat_fails env (file_path saveDir (Get (Query r) ''filename''))
        \<and> jpeg_decode env (content f) = Some img
        \<and> box_params r img = Inr box \<and> crop_scale env r img box = Inr rgbaImg
        \<and> Dx (bounds rgbaImg) < 2 ^ 16 \<and> Dy (bounds rgbaImg) < 2 ^ 16
        \<and> Get (Query r) ''nolabel'' = []"
  then have "scaledHandler env saveDir fs r
      = ImageJPEG (drawText env rgbaImg (label_text env r f) 10 20 (RGBA 255 0 0 255))"
    using scaled_labelled [where fs = fs and r = r and env = env and saveDir = saveDir
        and f = f and img = img and box = box and rgbaImg = rgbaImg] label_color_FF0000 by simp
  then show "\<exists>m. scaledHandler env saveDir fs r = ImageJPEG m
                \<and> bounds m = bounds rgbaImg
                \<and> (\<forall>px py. pix m px py
                      = (if In px py (bounds rgbaImg)
                            \<and> glyphs env (label_text env r f) 10 20 px py
                         then RGBA 255 0 0 255 else pix rgbaImg px py))"
    by (rule labelled_image)
qed

lemma demo_full_render:
  assumes "Get (Query r) ''filename'' = ''test''" "Get (Query r) ''x1'' = []"
    "Get (Query r) ''y1'' = []" "Get (Query r) ''x2'' = []" "Get (Query r) ''y2'' = []"
    "Get (Query r) ''w'' = []"
  shows "box_params r demo_image = Inr (0, 0, 100, 100)"
    and "crop_scale demo_env r demo_image (0, 0, 100, 100)
           = Inr (to_rgba (SubImage demo_image (Rect 0 0 100 100)))"
    and "bounds (to_rgba (SubImage demo_image (Rect 0 0 100 100)))
           = \<lparr>MinX = 0, MinY = 0, MaxX = 100, MaxY = 100\<rparr>"
proof -
  show "box_params r demo_image = Inr (0, 0, 100, 100)"
    using assms by (simp add: box_params_def int_param_def demo_image_def Rect_def)
  show "crop_scale demo_env r demo_image (0, 0, 100, 100)
           = Inr (to_rgba (SubImage demo_image (Rect 0 0 100 100)))"
    using assms by (simp add: crop_scale_def scale_step_def)
  have "clip_box (bounds demo_image) 0 0 100 100 = \<lparr>MinX = 0, MinY = 0, MaxX = 100, MaxY = 100\<rparr>"
    by (simp add: clip_box_def demo_image_def Rect_def)
  then show "bounds (to_rgba (SubImage demo_image (Rect 0 0 100 100)))
           = \<lparr>MinX = 0, MinY = 0, MaxX = 100, MaxY = 100\<rparr>"
    by (simp add: bounds_to_rgba SubImage_clip Empty_def)
qed

theorem label_color_fallback_witness:
  "ParseUint (Get (Query (get_request [(''filename'', ''test''), (''color'', ''zzzzzz'')])) ''color'')
       16 32 = Inl ErrSyntax
   \<and> (\<exists>m. scaledHandler demo_env ''.'' demo_store
              (get_request [(''filename'', ''test''), (''color'', ''zzzzzz'')]) = ImageJPEG m
            \<and> pix m 10 20 = RGBA 255 255 255 255)
   \<and> Get (Query (get_request [(''filename'', ''test''), (''color'', ''FF0000'')])) ''color''
       = ''FF0000''
   \<and> (\<exists>m. scaledHandler demo_env ''.'' demo_store
              (get_request [(''filename'', ''test''), (''color'', ''FF0000'')]) = ImageJPEG m
            \<and> pix m 10 20 = RGBA 255 0 0 255)"
proof -
  let ?z = "get_request [(''filename'', ''test''), (''color'', ''zzzzzz'')]"
  let ?f = "get_request [(''filename'', ''test''), (''color'', ''FF0000'')]"
  let ?file = "\<lparr>content = ''jpeg-bytes-100x100'', mtime = 0\<rparr>"
  let ?m = "to_rgba (SubImage demo_image (Rect 0 0 100 100))"
  have z: "Get (Query ?z) ''filename'' = ''test''" "Get (Query ?z) ''x1'' = []"
    "Get (Query ?z) ''y1'' = []" "Get (Query ?z) ''x2'' = []" "Get (Query ?z) ''y2'' = []"
    "Get (Query ?z) ''w'' = []"
    and zc: "Get (Query ?z) ''color'' = ''zzzzzz''" and zn: "Get (Query ?z) ''nolabel'' = []"
    by (simp_all add: get_request_def Get_def)
  have f: "Get (Query ?f) ''filename'' = ''test''" "Get (Query ?f) ''x1'' = []"
    "Get (Query ?f) ''y1'' = []" "Get (Query ?f) ''x2'' = []" "Get (Query ?f) ''y2'' = []"
    "Get (Query ?f) ''w'' = []"
    and fc: "Get (Query ?f) ''color'' = ''FF0000''" and fn: "Get (Query ?f) ''nolabel'' = []"
    by (simp_all add: get_request_def Get_def)
  have pz: "ParseUint (Get (Query ?z) ''color'') 16 32 = Inl ErrSyntax"
    unfolding zc by (rule ParseUint_zzzzzz)
  note rz = demo_full_render [OF z] and rf = demo_full_render [OF f]
  have d: "Dx (bounds ?m) < 2 ^ 16" "Dy (bounds ?m) < 2 ^ 16" and i: "In 10 20 (bounds ?m)"
    by (simp_all add: rz(3) Dx_def Dy_def In_def)
  have g: "glyphs demo_env (label_text demo_env ?z ?file) 10 20 10 20"
    "glyphs demo_env (label_text demo_env ?f ?file) 10 20 10 20"
    by (simp_all add: demo_env_def label_text_def Let_def)
  note t1 = label_color_fallback [where r = ?z and e = ErrSyntax and env = demo_env
      and saveDir = "''.''" and fs = demo_store and f = ?file and img = demo_image
      and box = "(0, 0, 100, 100)" and rgbaImg = ?m]
  note t2 = label_color_fallback [where r = ?f and e = ErrSyntax and env = demo_env
      and saveDir = "''.''" and fs = demo_store and f = ?file and img = demo_image
      and box = "(0, 0, 100, 100)" and rgbaImg = ?m]
  from t1 pz demo_loaded [OF z(1)] rz(1,2) d zn
  obtain m where m: "scaledHandler demo_env ''.'' demo_store ?z = ImageJPEG m"
    "\<forall>px py. pix m px py
        = (if In px py (bounds ?m) \<and> glyphs demo_env (label_text demo_env ?z ?file) 10 20 px py
           then RGBA 255 255 255 255 else pix ?m px py)"
    by blast
  from m(2) i g(1) have "pix m 10 20 = RGBA 255 255 255 255" by simp
  with m(1) have a: "\<exists>m. scaledHandler demo_env ''.'' demo_store ?z = ImageJPEG m
      \<and> pix m 10 20 = RGBA 255 255 255 255" by blast
  from t2 fc demo_loaded [OF f(1)] rf(1,2) d fn
  obtain n where n: "scaledHandler demo_env ''.'' demo_store ?f = ImageJPEG n"
    "\<forall>px py. pix n px py
        = (if In px py (bounds ?m) \<and> glyphs demo_env (label_text demo_env ?f ?file) 10 20 px py
           then RGBA 255 0 0 255 else pix ?m px py)"
    by blast
  from n(2) i g(2) have "pix n 10 20 = RGBA 255 0 0 255" by simp
  with n(1) have b: "\<exists>m. scaledHandler demo_env ''.'' demo_store ?f = ImageJPEG m
      \<and> pix m 10 20 = RGBA 255 0 0 255" by blast
  from pz a fc b show ?thesis by blast
qed

end
